theory Spec2Isabelle
  imports Main "HOL-Library.Char_ord" "HOL-Library.List_Lexorder" "HOL-Library.Sublist"
begin

section \<open>The MLB transform-and-load pipeline (transform\_load\_mlb\_data.py)\<close>

text \<open>
  The pipeline reads JSON snapshots from the intake directory, resolves teams, players and
  games against an SQLite database, derives batting rates, bulk-loads stat lines, records
  the processed date range in a ledger table and archives the snapshot.

  Conventions of the embedding.
  \<^item> Python \<open>None\<close> (a missing or null JSON key, an SQL NULL) is \<open>None\<close> of an option type.
  \<^item> Python strings are \<open>string\<close>; a \<open>char\<close> stands for a code point below 256, where the
    decimal digits are exactly \<open>0\<close> .. \<open>9\<close>. SQLite compares TEXT values bytewise, which is
    the lexicographic order on \<open>string\<close>.
  \<^item> Every Python exception is a value of type \<open>error\<close>; a function that can raise returns
    the world together with \<open>error + 'a\<close>.
  \<^item> Python floats are a type parameter \<open>'f\<close>; the float primitives the code uses
    (\<open>/\<close>, \<open>+\<close>, \<open>round(_, 3)\<close>, the literal \<open>0.0\<close>) are the fields of a \<open>float_ops\<close> record.
  \<^item> A storage call (\<open>sqlite3.connect\<close>, \<open>cursor.execute\<close>, \<open>executemany\<close>, \<open>conn.commit\<close>)
    and \<open>shutil.move\<close> can fail; whether the next such call fails is read from the list
    \<open>faults\<close> of the world (\<open>True\<close>: it raises), an empty list meaning no further failure.
  \<^item> Python ints are \<open>int\<close>; where the code hands one to SQLite or divides two of them, the
    \<open>OverflowError\<close> of a value that does not fit is a branch of the model.
\<close>

subsection \<open>Exceptions and log records\<close>

datatype error =
    Sqlite_Error           \<comment> \<open>\<open>sqlite3.Error\<close> and its subclasses\<close>
  | Retrieval_Exception    \<comment> \<open>\<open>Exception("Error retrieving ...")\<close> of the resolvers\<close>
  | Value_Error            \<comment> \<open>\<open>ValueError\<close>: \<open>int(team_key)\<close>, \<open>json.load\<close>\<close>
  | OS_Error               \<comment> \<open>\<open>OSError\<close>: \<open>open\<close>, \<open>shutil.move\<close>\<close>
  | ZeroDivision_Error     \<comment> \<open>\<open>ZeroDivisionError\<close> of \<open>/\<close>\<close>
  | Overflow_Error         \<comment> \<open>\<open>OverflowError\<close>: an int too large for SQLite or for a float\<close>

datatype level = INFO | WARNING | ERROR

text \<open>One constructor for each \<open>logging\<close> call of the source, with the values it formats.\<close>

datatype event =
    Connection_established
  | Error_connecting
  | Error_get_or_create_team "string option"
  | Error_get_or_create_player "string option"
  | Error_get_or_create_game "int option"
  | Bulk_inserted nat string
  | Error_bulk_inserting string
  | Team_not_found string
  | Game_missing_team_mapping "int option"
  | Transformed_and_loaded
  | Error_transform_and_load error
  | Error_checking_processed_files
  | Recorded_file string
  | Error_recording_file string
  | Overlaps_skipping string string string
  | Filename_does_not_match string
  | Processing_file string
  | Moved_file string
  | Failed_to_process string error

fun level_of :: "event \<Rightarrow> level" where
  "level_of Connection_established = INFO"
| "level_of (Bulk_inserted n t) = INFO"
| "level_of Transformed_and_loaded = INFO"
| "level_of (Recorded_file f) = INFO"
| "level_of (Overlaps_skipping s e f) = INFO"
| "level_of (Processing_file f) = INFO"
| "level_of (Moved_file f) = INFO"
| "level_of (Team_not_found k) = WARNING"
| "level_of (Game_missing_team_mapping g) = WARNING"
| "level_of (Filename_does_not_match f) = WARNING"
| "level_of ev = ERROR"

subsection \<open>The database (\<open>create_tables\<close>)\<close>

record team_row =
  team_id :: int
  api_team_id :: "int option"
  team_name :: string                 \<comment> \<open>\<open>name TEXT NOT NULL\<close>\<close>
  team_venue :: "string option"
  team_city :: "string option"

record player_row =
  player_id :: int
  api_player_id :: "int option"
  player_name :: string               \<comment> \<open>\<open>name TEXT NOT NULL\<close>\<close>
  player_team_id :: int
  player_position :: string

record game_row =
  game_id :: int
  api_game_id :: "int option"
  game_date :: "string option"
  game_location :: "string option"
  home_team_id :: int
  away_team_id :: int
  home_team_score :: "int option"
  away_team_score :: "int option"

record 'f batter_vals =
  b_game_id :: int
  b_player_id :: int
  b_at_bats :: int
  b_runs :: int
  b_hits :: int
  b_doubles :: int
  b_triples :: int
  b_home_runs :: int
  b_rbi :: int
  b_walks :: int
  b_hit_by_pitch :: int
  b_strikeouts :: int
  b_stolen_bases :: int
  b_caught_stealing :: int
  b_avg :: 'f
  b_obp :: 'f
  b_slg :: 'f
  b_ops :: 'f

record 'f pitcher_vals =
  p_game_id :: int
  p_player_id :: int
  p_innings_pitched :: 'f
  p_hits_allowed :: int
  p_runs_allowed :: int
  p_earned_runs :: int
  p_home_runs_allowed :: int
  p_walks_allowed :: int
  p_strikeouts :: int

record processed_row =
  processed_id :: int
  file_name :: string
  start_date :: string
  end_date :: string
  processed_at :: string

text \<open>
  A table is its rows in insertion order and the counter that \<open>AUTOINCREMENT\<close> keeps in
  \<open>sqlite_sequence\<close>: the largest rowid handed out so far. SQLite takes the next rowid
  before it checks the constraints, so an insert that \<open>OR IGNORE\<close> drops advances the
  counter all the same.
\<close>

record 'r table =
  rows :: "'r list"
  seq :: int

record 'f db =
  teams :: "team_row table"
  players :: "player_row table"
  games :: "game_row table"
  batter_stats :: "(int \<times> 'f batter_vals) table"
  pitcher_stats :: "(int \<times> 'f pitcher_vals) table"
  processed_files :: "processed_row table"

definition empty_table :: "'r table" where
  "empty_table = \<lparr>rows = [], seq = 0\<rparr>"

definition empty_db :: "'f db" where
  "empty_db = \<lparr>teams = empty_table, players = empty_table, games = empty_table,
     batter_stats = empty_table, pitcher_stats = empty_table, processed_files = empty_table\<rparr>"

subsection \<open>The input unit (the JSON document of one snapshot)\<close>

text \<open>
  The fixed input shape; a field read with \<open>.get(key)\<close> is \<open>None\<close> when the key is missing
  or null, a field read with \<open>.get(key, default)\<close> is \<open>None\<close> when the key is missing.
\<close>

record team_json =
  tj_id :: "int option"               \<comment> \<open>\<open>team.get("id")\<close>\<close>
  tj_name :: "string option"          \<comment> \<open>\<open>team.get("name")\<close>\<close>
  tj_venue_name :: "string option"    \<comment> \<open>\<open>team.get("venue", {}).get("name")\<close>\<close>
  tj_location_name :: "string option" \<comment> \<open>\<open>team.get("locationName")\<close>\<close>

record player_json =
  pj_id :: "int option"               \<comment> \<open>\<open>person.get("id")\<close>\<close>
  pj_full_name :: "string option"     \<comment> \<open>\<open>person.get("fullName")\<close>\<close>
  pj_abbreviation :: "string option"  \<comment> \<open>\<open>player.get("position", {}).get("abbreviation", "NA")\<close>\<close>

record game_json =
  gj_game_id :: "int option"
  gj_game_date :: "string option"
  gj_location :: "string option"
  gj_home_team_id :: "int option"
  gj_away_team_id :: "int option"
  gj_home_team_score :: "int option"
  gj_away_team_score :: "int option"

record batter_json =
  bj_game_id :: "int option"
  bj_player_id :: "int option"
  bj_at_bats :: "int option"
  bj_runs :: "int option"
  bj_hits :: "int option"
  bj_doubles :: "int option"
  bj_triples :: "int option"
  bj_home_runs :: "int option"
  bj_rbi :: "int option"
  bj_walks :: "int option"
  bj_hit_by_pitch :: "int option"
  bj_strikeouts :: "int option"
  bj_stolen_bases :: "int option"
  bj_caught_stealing :: "int option"
  bj_sac_flies :: "int option"
  bj_total_bases :: "int option"

record 'f pitcher_json =
  sj_game_id :: "int option"
  sj_player_id :: "int option"
  sj_innings_pitched :: "'f option"
  sj_hits_allowed :: "int option"
  sj_runs_allowed :: "int option"
  sj_earned_runs :: "int option"
  sj_home_runs_allowed :: "int option"
  sj_walks_allowed :: "int option"
  sj_strikeouts :: "int option"

record 'f snapshot =
  teams_j :: "team_json list"
  rosters_j :: "(string \<times> player_json list) list"   \<comment> \<open>\<open>rosters.items()\<close>, in order\<close>
  games_j :: "game_json list"
  batter_stats_j :: "batter_json list"
  pitcher_stats_j :: "'f pitcher_json list"

datatype 'f content = Malformed | Document "'f snapshot"

subsection \<open>The world: database file, connections, directories, log\<close>

text \<open>
  \<open>committed\<close> is the database file. The program holds two connections to it: the one of
  \<open>main\<close>, which reads and writes the ledger only, and the one that \<open>transform_and_load\<close>
  opens and closes (the loader's), which reads and writes the other five tables only and
  does not run \<open>PRAGMA foreign_keys\<close>, so that foreign keys are not enforced. \<open>sqlite3\<close> opens
  a transaction before an \<open>INSERT\<close>, and the transaction stays open until the connection
  commits, rolls back or is closed, also when the \<open>INSERT\<close> itself fails. \<open>txn\<close> is the
  working copy of the loader's connection while it has a transaction open, \<open>main_txn\<close> the
  working copy of the ledger that \<open>main\<close>'s connection has in its transaction.
\<close>

record 'f world =
  committed :: "'f db"
  txn :: "'f db option"
  main_txn :: "processed_row table option"
  faults :: "bool list"
  logs :: "event list"
  raw_dir :: "(string \<times> 'f content) list"
  historical_dir :: "(string \<times> 'f content) list"
  now :: string                       \<comment> \<open>\<open>datetime.now().isoformat()\<close>\<close>

type_synonym ('a, 'f) action = "'f world \<Rightarrow> 'f world \<times> (error + 'a)"

definition return_ok :: "'a \<Rightarrow> ('a, 'f) action" where
  "return_ok x w = (w, Inr x)"

definition raise :: "error \<Rightarrow> ('a, 'f) action" where
  "raise e w = (w, Inl e)"

definition bind :: "('a, 'f) action \<Rightarrow> ('a \<Rightarrow> ('b, 'f) action) \<Rightarrow> ('b, 'f) action" where
  "bind m f w = (case m w of (w', Inl e) \<Rightarrow> (w', Inl e) | (w', Inr x) \<Rightarrow> f x w')"

definition log_event :: "event \<Rightarrow> 'f world \<Rightarrow> 'f world" where
  "log_event ev w = w\<lparr>logs := logs w @ [ev]\<rparr>"

text \<open>\<open>except sqlite3.Error as e: logging.error(...); raise\<close>\<close>

definition except_sqlite :: "('a, 'f) action \<Rightarrow> event \<Rightarrow> ('a, 'f) action" where
  "except_sqlite m ev w =
     (case m w of
        (w', Inl Sqlite_Error) \<Rightarrow> (log_event ev w', Inl Sqlite_Error)
      | r \<Rightarrow> r)"

definition next_fault :: "'f world \<Rightarrow> bool \<times> 'f world" where
  "next_fault w = (case faults w of [] \<Rightarrow> (False, w) | b # bs \<Rightarrow> (b, w\<lparr>faults := bs\<rparr>))"

datatype conn = Main_conn | Loader_conn

text \<open>The database as the loader's connection sees it, and as \<open>main\<close>'s connection sees it.\<close>

definition view :: "'f world \<Rightarrow> 'f db" where
  "view w = (case txn w of None \<Rightarrow> committed w | Some d \<Rightarrow> d)"

definition main_view :: "'f world \<Rightarrow> 'f db" where
  "main_view w =
     (case main_txn w of None \<Rightarrow> committed w | Some t \<Rightarrow> (committed w)\<lparr>processed_files := t\<rparr>)"

definition conn_view :: "conn \<Rightarrow> 'f world \<Rightarrow> 'f db" where
  "conn_view c w = (case c of Main_conn \<Rightarrow> main_view w | Loader_conn \<Rightarrow> view w)"

definition in_transaction :: "conn \<Rightarrow> 'f world \<Rightarrow> bool" where
  "in_transaction c w = (case c of Main_conn \<Rightarrow> main_txn w \<noteq> None | Loader_conn \<Rightarrow> txn w \<noteq> None)"

text \<open>The implicit \<open>BEGIN\<close> before a writing statement, and the working copy after one.\<close>

definition begin_txn :: "conn \<Rightarrow> 'f world \<Rightarrow> 'f world" where
  "begin_txn c w =
     (if in_transaction c w then w
      else (case c of
              Main_conn \<Rightarrow> w\<lparr>main_txn := Some (processed_files (committed w))\<rparr>
            | Loader_conn \<Rightarrow> w\<lparr>txn := Some (committed w)\<rparr>))"

definition store :: "conn \<Rightarrow> 'f db \<Rightarrow> 'f world \<Rightarrow> 'f world" where
  "store c d w =
     (case c of
        Main_conn \<Rightarrow> w\<lparr>main_txn := Some (processed_files d)\<rparr>
      | Loader_conn \<Rightarrow> w\<lparr>txn := Some d\<rparr>)"

text \<open>
  A connection inside a transaction holds the write lock of the database file: a write
  through the other connection fails with \<open>database is locked\<close> (an
  \<open>sqlite3.OperationalError\<close>).
\<close>

definition locked :: "conn \<Rightarrow> 'f world \<Rightarrow> bool" where
  "locked c w = (case c of Main_conn \<Rightarrow> txn w \<noteq> None | Loader_conn \<Rightarrow> main_txn w \<noteq> None)"

text \<open>SQLite's INTEGER is a signed 64-bit value; binding a larger Python int raises
  \<open>OverflowError\<close>.\<close>

definition sqlite_int :: "int \<Rightarrow> bool" where
  "sqlite_int i = (- (2 ^ 63) \<le> i \<and> i < 2 ^ 63)"

definition sqlite_int_opt :: "int option \<Rightarrow> bool" where
  "sqlite_int_opt v = (case v of None \<Rightarrow> True | Some i \<Rightarrow> sqlite_int i)"

text \<open>
  \<open>cursor.execute\<close> of a writing statement on connection \<open>c\<close>. The transaction is opened
  first and stays open whatever happens next. \<open>bound\<close> says that every integer parameter
  fits SQLite's INTEGER; \<open>stmt\<close> gives the database after the statement, or \<open>None\<close> when a
  constraint fails (\<open>sqlite3.IntegrityError\<close>).
\<close>

definition execute :: "conn \<Rightarrow> bool \<Rightarrow> ('f db \<Rightarrow> 'f db option) \<Rightarrow> (unit, 'f) action" where
  "execute c bound stmt w =
     (case next_fault (begin_txn c w) of
        (True, w') \<Rightarrow> (w', Inl Sqlite_Error)
      | (False, w') \<Rightarrow>
          if \<not> bound then (w', Inl Overflow_Error)
          else if locked c w' then (w', Inl Sqlite_Error)
          else (case stmt (conn_view c w') of
                  None \<Rightarrow> (w', Inl Sqlite_Error)
                | Some d \<Rightarrow> (store c d w', Inr ())))"

text \<open>\<open>cursor.execute\<close> of a \<open>SELECT\<close>, with the \<open>fetchone()\<close> that follows it.\<close>

definition query :: "conn \<Rightarrow> ('f db \<Rightarrow> 'a) \<Rightarrow> ('a, 'f) action" where
  "query c sel w =
     (case next_fault w of
        (True, w') \<Rightarrow> (w', Inl Sqlite_Error)
      | (False, w') \<Rightarrow> (w', Inr (sel (conn_view c w'))))"

text \<open>
  \<open>conn.commit()\<close>: nothing to do without an open transaction; otherwise the tables the
  connection works on become those of the database file and the transaction ends, or the
  commit fails and the transaction stays open.
\<close>

definition apply_commit :: "conn \<Rightarrow> 'f world \<Rightarrow> 'f world" where
  "apply_commit c w =
     (case c of
        Main_conn \<Rightarrow>
          (case main_txn w of
             None \<Rightarrow> w
           | Some t \<Rightarrow> w\<lparr>committed := (committed w)\<lparr>processed_files := t\<rparr>, main_txn := None\<rparr>)
      | Loader_conn \<Rightarrow>
          (case txn w of
             None \<Rightarrow> w
           | Some d \<Rightarrow>
               w\<lparr>committed := d\<lparr>processed_files := processed_files (committed w)\<rparr>,
                 txn := None\<rparr>))"

definition conn_commit :: "conn \<Rightarrow> (unit, 'f) action" where
  "conn_commit c w =
     (if in_transaction c w then
        (case next_fault w of
           (True, w') \<Rightarrow> (w', Inl Sqlite_Error)
         | (False, w') \<Rightarrow> (apply_commit c w', Inr ()))
      else (w, Inr ()))"

text \<open>Rollback and close of the loader's connection; \<open>main\<close> never rolls its own back.\<close>

definition conn_rollback :: "'f world \<Rightarrow> 'f world" where
  "conn_rollback w = w\<lparr>txn := None\<rparr>"

definition conn_close :: "'f world \<Rightarrow> 'f world" where
  "conn_close w = w\<lparr>txn := None\<rparr>"

text \<open>\<open>create_connection\<close> in \<open>transform_and_load\<close>: a fresh connection has no transaction
  open.\<close>

definition create_connection :: "(unit, 'f) action" where
  "create_connection w =
     (case next_fault w of
        (True, w') \<Rightarrow> (log_event Error_connecting w', Inl Sqlite_Error)
      | (False, w') \<Rightarrow> (log_event Connection_established (w'\<lparr>txn := None\<rparr>), Inr ()))"

text \<open>\<open>with conn: body\<close>: commit when the body returns, roll back when it raises.\<close>

definition with_conn :: "('a, 'f) action \<Rightarrow> ('a, 'f) action" where
  "with_conn body w =
     (case body w of
        (w', Inl e) \<Rightarrow> (conn_rollback w', Inl e)
      | (w', Inr x) \<Rightarrow>
          (case conn_commit Loader_conn w' of
             (w'', Inl e) \<Rightarrow> (w'', Inl e)
           | (w'', Inr u) \<Rightarrow> (w'', Inr x)))"

subsection \<open>Entity resolution (\<open>get_or_create_team\<close>, \<open>get_or_create_player\<close>, \<open>get_or_create_game\<close>)\<close>

text \<open>
  The resolvers and \<open>bulk_insert_stats\<close> are only ever called with the loader's connection,
  which the model fixes in place of their \<open>conn\<close> parameter.
\<close>

text \<open>
  \<open>INSERT OR IGNORE\<close>: the row is dropped when it violates \<open>NOT NULL\<close> on \<open>name\<close> or
  \<open>UNIQUE\<close> on the external id (SQL NULLs never collide); otherwise it is appended with
  the next rowid.
\<close>

definition insert_or_ignore_team ::
  "int option \<Rightarrow> string option \<Rightarrow> string option \<Rightarrow> string option \<Rightarrow> team_row table \<Rightarrow> team_row table" where
  "insert_or_ignore_team api name venue city t =
     (case name of
        None \<Rightarrow> t\<lparr>seq := seq t + 1\<rparr>
      | Some n \<Rightarrow>
          if api \<noteq> None \<and> list_ex (\<lambda>r. api_team_id r = api) (rows t)
          then t\<lparr>seq := seq t + 1\<rparr>
          else \<lparr>rows = rows t @ [\<lparr>team_id = seq t + 1, api_team_id = api, team_name = n,
                                   team_venue = venue, team_city = city\<rparr>],
                seq = seq t + 1\<rparr>)"

definition insert_or_ignore_player ::
  "int option \<Rightarrow> string option \<Rightarrow> int \<Rightarrow> string \<Rightarrow> player_row table \<Rightarrow> player_row table" where
  "insert_or_ignore_player api name tid position t =
     (case name of
        None \<Rightarrow> t\<lparr>seq := seq t + 1\<rparr>
      | Some n \<Rightarrow>
          if api \<noteq> None \<and> list_ex (\<lambda>r. api_player_id r = api) (rows t)
          then t\<lparr>seq := seq t + 1\<rparr>
          else \<lparr>rows = rows t @ [\<lparr>player_id = seq t + 1, api_player_id = api, player_name = n,
                                   player_team_id = tid, player_position = position\<rparr>],
                seq = seq t + 1\<rparr>)"

definition insert_or_ignore_game ::
  "int option \<Rightarrow> string option \<Rightarrow> string option \<Rightarrow> int \<Rightarrow> int \<Rightarrow> int option \<Rightarrow> int option
     \<Rightarrow> game_row table \<Rightarrow> game_row table" where
  "insert_or_ignore_game api date location home away home_score away_score t =
     (if api \<noteq> None \<and> list_ex (\<lambda>r. api_game_id r = api) (rows t)
      then t\<lparr>seq := seq t + 1\<rparr>
      else \<lparr>rows = rows t @ [\<lparr>game_id = seq t + 1, api_game_id = api, game_date = date,
                               game_location = location, home_team_id = home, away_team_id = away,
                               home_team_score = home_score, away_team_score = away_score\<rparr>],
            seq = seq t + 1\<rparr>)"

text \<open>\<open>SELECT id FROM t WHERE api_id = ?\<close> and \<open>fetchone()\<close>: a NULL parameter matches no row.\<close>

definition select_team :: "int option \<Rightarrow> 'f db \<Rightarrow> team_row option" where
  "select_team api d = find (\<lambda>r. api \<noteq> None \<and> api_team_id r = api) (rows (teams d))"

definition select_player :: "int option \<Rightarrow> 'f db \<Rightarrow> player_row option" where
  "select_player api d = find (\<lambda>r. api \<noteq> None \<and> api_player_id r = api) (rows (players d))"

definition select_game :: "int option \<Rightarrow> 'f db \<Rightarrow> game_row option" where
  "select_game api d = find (\<lambda>r. api \<noteq> None \<and> api_game_id r = api) (rows (games d))"

definition get_or_create_team ::
  "int option \<Rightarrow> string option \<Rightarrow> string option \<Rightarrow> string option \<Rightarrow> (int, 'f) action" where
  "get_or_create_team api name venue city =
     except_sqlite
       (bind (execute Loader_conn (sqlite_int_opt api)
                (\<lambda>d. Some (d\<lparr>teams := insert_or_ignore_team api name venue city (teams d)\<rparr>)))
          (\<lambda>u. bind (conn_commit Loader_conn)
          (\<lambda>u. bind (query Loader_conn (select_team api))
          (\<lambda>row. case row of
                    Some r \<Rightarrow> return_ok (team_id r)
                  | None \<Rightarrow> raise Retrieval_Exception))))
       (Error_get_or_create_team name)"

definition get_or_create_player ::
  "int option \<Rightarrow> string option \<Rightarrow> int \<Rightarrow> string \<Rightarrow> (int, 'f) action" where
  "get_or_create_player api name tid position =
     except_sqlite
       (bind (execute Loader_conn (sqlite_int_opt api \<and> sqlite_int tid)
                (\<lambda>d. Some (d\<lparr>players :=
                   insert_or_ignore_player api name tid position (players d)\<rparr>)))
          (\<lambda>u. bind (conn_commit Loader_conn)
          (\<lambda>u. bind (query Loader_conn (select_player api))
          (\<lambda>row. case row of
                    Some r \<Rightarrow> return_ok (player_id r)
                  | None \<Rightarrow> raise Retrieval_Exception))))
       (Error_get_or_create_player name)"

definition get_or_create_game ::
  "int option \<Rightarrow> string option \<Rightarrow> string option \<Rightarrow> int \<Rightarrow> int \<Rightarrow> int option \<Rightarrow> int option
     \<Rightarrow> (int, 'f) action" where
  "get_or_create_game api date location home away home_score away_score =
     except_sqlite
       (bind (execute Loader_conn
                (sqlite_int_opt api \<and> sqlite_int home \<and> sqlite_int away
                 \<and> sqlite_int_opt home_score \<and> sqlite_int_opt away_score)
                (\<lambda>d. Some (d\<lparr>games :=
                   insert_or_ignore_game api date location home away home_score away_score
                     (games d)\<rparr>)))
          (\<lambda>u. bind (conn_commit Loader_conn)
          (\<lambda>u. bind (query Loader_conn (select_game api))
          (\<lambda>row. case row of
                    Some r \<Rightarrow> return_ok (game_id r)
                  | None \<Rightarrow> raise Retrieval_Exception))))
       (Error_get_or_create_game api)"

subsection \<open>Bulk loading (\<open>bulk_insert_stats\<close>)\<close>

fun assign_ids :: "int \<Rightarrow> 'a list \<Rightarrow> (int \<times> 'a) list" where
  "assign_ids s [] = []"
| "assign_ids s (x # xs) = (s + 1, x) # assign_ids (s + 1) xs"

definition insert_many :: "'a list \<Rightarrow> (int \<times> 'a) table \<Rightarrow> (int \<times> 'a) table" where
  "insert_many vals t = \<lparr>rows = rows t @ assign_ids (seq t) vals, seq = seq t + int (length vals)\<rparr>"

datatype 'f stat_data = Batter_rows "'f batter_vals list" | Pitcher_rows "'f pitcher_vals list"

fun table_name :: "'f stat_data \<Rightarrow> string" where
  "table_name (Batter_rows rs) = ''batter_stats''"
| "table_name (Pitcher_rows rs) = ''pitcher_stats''"

fun data_length :: "'f stat_data \<Rightarrow> nat" where
  "data_length (Batter_rows rs) = length rs"
| "data_length (Pitcher_rows rs) = length rs"

fun executemany :: "'f stat_data \<Rightarrow> 'f db \<Rightarrow> 'f db option" where
  "executemany (Batter_rows rs) d = Some (d\<lparr>batter_stats := insert_many rs (batter_stats d)\<rparr>)"
| "executemany (Pitcher_rows rs) d = Some (d\<lparr>pitcher_stats := insert_many rs (pitcher_stats d)\<rparr>)"

text \<open>Every integer column of every row is bound as a parameter.\<close>

definition batter_bound :: "'f batter_vals \<Rightarrow> bool" where
  "batter_bound r =
     list_all sqlite_int
       [b_game_id r, b_player_id r, b_at_bats r, b_runs r, b_hits r, b_doubles r, b_triples r,
        b_home_runs r, b_rbi r, b_walks r, b_hit_by_pitch r, b_strikeouts r, b_stolen_bases r,
        b_caught_stealing r]"

definition pitcher_bound :: "'f pitcher_vals \<Rightarrow> bool" where
  "pitcher_bound r =
     list_all sqlite_int
       [p_game_id r, p_player_id r, p_hits_allowed r, p_runs_allowed r, p_earned_runs r,
        p_home_runs_allowed r, p_walks_allowed r, p_strikeouts r]"

fun data_bound :: "'f stat_data \<Rightarrow> bool" where
  "data_bound (Batter_rows rs) = list_all batter_bound rs"
| "data_bound (Pitcher_rows rs) = list_all pitcher_bound rs"

definition bulk_insert_stats :: "'f stat_data \<Rightarrow> (unit, 'f) action" where
  "bulk_insert_stats data =
     except_sqlite
       (bind (execute Loader_conn (data_bound data) (executemany data))
          (\<lambda>u. bind (conn_commit Loader_conn)
          (\<lambda>u w. (log_event (Bulk_inserted (data_length data) (table_name data)) w, Inr ()))))
       (Error_bulk_inserting (table_name data))"

subsection \<open>Derived batting rates (\<open>transform_and_load\<close>, the batter loop)\<close>

record 'f float_ops =
  fzero :: 'f                         \<comment> \<open>\<open>0.0\<close>\<close>
  truediv :: "int \<Rightarrow> int \<Rightarrow> 'f option" \<comment> \<open>\<open>a / b\<close> of two ints, \<open>b\<close> not zero; \<open>None\<close> when the
                                           quotient is too large for a float\<close>
  fadd :: "'f \<Rightarrow> 'f \<Rightarrow> 'f"             \<comment> \<open>\<open>x + y\<close> of two floats\<close>
  round3 :: "'f \<Rightarrow> 'f"                 \<comment> \<open>\<open>round(x, 3)\<close>\<close>

record 'f rates =
  r_avg :: 'f
  r_obp :: 'f
  r_slg :: 'f
  r_ops :: 'f

definition py_truediv :: "'f float_ops \<Rightarrow> int \<Rightarrow> int \<Rightarrow> error + 'f" where
  "py_truediv fl a b =
     (if b = 0 then Inl ZeroDivision_Error
      else (case truediv fl a b of None \<Rightarrow> Inl Overflow_Error | Some q \<Rightarrow> Inr q))"

definition rounded_ratio :: "'f float_ops \<Rightarrow> int \<Rightarrow> int \<Rightarrow> error + 'f" where
  "rounded_ratio fl a b = (case py_truediv fl a b of Inl e \<Rightarrow> Inl e | Inr q \<Rightarrow> Inr (round3 fl q))"

definition derive_rates ::
  "'f float_ops \<Rightarrow> int \<Rightarrow> int \<Rightarrow> int \<Rightarrow> int \<Rightarrow> int \<Rightarrow> int \<Rightarrow> error + 'f rates" where
  "derive_rates fl at_bats hits walks hit_by_pitch sac_flies total_bases =
     (case (if at_bats > 0 then rounded_ratio fl hits at_bats else Inr (fzero fl)) of
        Inl e \<Rightarrow> Inl e
      | Inr avg \<Rightarrow>
          (let obp_denominator = at_bats + walks + hit_by_pitch + sac_flies in
           case (if obp_denominator > 0
                 then rounded_ratio fl (hits + walks + hit_by_pitch) obp_denominator
                 else Inr (fzero fl)) of
             Inl e \<Rightarrow> Inl e
           | Inr obp \<Rightarrow>
               (case (if at_bats > 0 then rounded_ratio fl total_bases at_bats else Inr (fzero fl)) of
                  Inl e \<Rightarrow> Inl e
                | Inr slg \<Rightarrow>
                    Inr \<lparr>r_avg = avg, r_obp = obp, r_slg = slg,
                         r_ops = round3 fl (fadd fl obp slg)\<rparr>)))"

subsection \<open>Reference data of one unit (\<open>transform_and_load\<close>, inside \<open>with conn\<close>)\<close>

type_synonym team_map_api = "int option \<rightharpoonup> int"
type_synonym team_map_name = "string option \<rightharpoonup> int"
type_synonym id_map = "int option \<rightharpoonup> int"

fun process_teams ::
  "team_json list \<Rightarrow> team_map_api \<times> team_map_name \<Rightarrow> (team_map_api \<times> team_map_name, 'f) action" where
  "process_teams [] m w = (w, Inr m)"
| "process_teams (team # ts) m w =
     (case get_or_create_team (tj_id team) (tj_name team) (tj_venue_name team)
             (tj_location_name team) w of
        (w', Inl e) \<Rightarrow> (w', Inl e)
      | (w', Inr db_team_id) \<Rightarrow>
          process_teams ts ((fst m)(tj_id team \<mapsto> db_team_id),
                            (snd m)(tj_name team \<mapsto> db_team_id)) w')"

text \<open>
  \<open>str.isdigit\<close> also accepts the superscript digits (code points B2, B3, B9), which
  \<open>int\<close> rejects with \<open>ValueError\<close>, as it does a string of more than 4300 digits.
\<close>

definition is_ascii_digit :: "char \<Rightarrow> bool" where
  "is_ascii_digit c = (c \<in> set ''0123456789'')"

definition is_superscript_digit :: "char \<Rightarrow> bool" where
  "is_superscript_digit c = (c \<in> {CHR 0xB2, CHR 0xB3, CHR 0xB9})"

definition py_isdigit :: "string \<Rightarrow> bool" where
  "py_isdigit s = (s \<noteq> [] \<and> list_all (\<lambda>c. is_ascii_digit c \<or> is_superscript_digit c) s)"

definition py_int :: "string \<Rightarrow> error + int" where
  "py_int s =
     (if s \<noteq> [] \<and> length s \<le> 4300 \<and> list_all is_ascii_digit s
      then Inr (foldl (\<lambda>a c. 10 * a + (of_char c - 48)) 0 s)
      else Inl Value_Error)"

fun process_roster :: "player_json list \<Rightarrow> int \<Rightarrow> id_map \<Rightarrow> (id_map, 'f) action" where
  "process_roster [] db_team_id pm w = (w, Inr pm)"
| "process_roster (player # ps) db_team_id pm w =
     (case get_or_create_player (pj_id player) (pj_full_name player) db_team_id
             (case pj_abbreviation player of None \<Rightarrow> ''NA'' | Some a \<Rightarrow> a) w of
        (w', Inl e) \<Rightarrow> (w', Inl e)
      | (w', Inr db_player_id) \<Rightarrow>
          process_roster ps db_team_id (pm(pj_id player \<mapsto> db_player_id)) w')"

definition lookup_team_key :: "team_map_api \<Rightarrow> team_map_name \<Rightarrow> string \<Rightarrow> error + int option" where
  "lookup_team_key by_api by_name team_key =
     (if py_isdigit team_key
      then (case py_int team_key of Inl e \<Rightarrow> Inl e | Inr k \<Rightarrow> Inr (by_api (Some k)))
      else Inr (by_name (Some team_key)))"

fun process_rosters ::
  "(string \<times> player_json list) list \<Rightarrow> team_map_api \<Rightarrow> team_map_name \<Rightarrow> id_map \<Rightarrow> (id_map, 'f) action" where
  "process_rosters [] by_api by_name pm w = (w, Inr pm)"
| "process_rosters (entry # rs) by_api by_name pm w =
     (case lookup_team_key by_api by_name (fst entry) of
        Inl e \<Rightarrow> (w, Inl e)
      | Inr None \<Rightarrow> process_rosters rs by_api by_name pm (log_event (Team_not_found (fst entry)) w)
      | Inr (Some db_team_id) \<Rightarrow>
          (case process_roster (snd entry) db_team_id pm w of
             (w', Inl e) \<Rightarrow> (w', Inl e)
           | (w', Inr pm') \<Rightarrow> process_rosters rs by_api by_name pm' w'))"

fun process_games :: "game_json list \<Rightarrow> team_map_api \<Rightarrow> id_map \<Rightarrow> (id_map, 'f) action" where
  "process_games [] by_api gm w = (w, Inr gm)"
| "process_games (game # gs) by_api gm w =
     (case (by_api (gj_home_team_id game), by_api (gj_away_team_id game)) of
        (Some home_team_db_id, Some away_team_db_id) \<Rightarrow>
          (case get_or_create_game (gj_game_id game) (gj_game_date game) (gj_location game)
                  home_team_db_id away_team_db_id
                  (gj_home_team_score game) (gj_away_team_score game) w of
             (w', Inl e) \<Rightarrow> (w', Inl e)
           | (w', Inr db_game_id) \<Rightarrow> process_games gs by_api (gm(gj_game_id game \<mapsto> db_game_id)) w')
      | other \<Rightarrow>
          process_games gs by_api gm (log_event (Game_missing_team_mapping (gj_game_id game)) w))"

text \<open>The body of \<open>with conn\<close>: teams, then rosters, then games; it yields the two id mappings
  that the stat loops use.\<close>

definition resolve_reference_data :: "'f snapshot \<Rightarrow> (id_map \<times> id_map, 'f) action" where
  "resolve_reference_data data =
     bind (process_teams (teams_j data) (Map.empty, Map.empty))
       (\<lambda>m. bind (process_rosters (rosters_j data) (fst m) (snd m) Map.empty)
       (\<lambda>player_mapping. bind (process_games (games_j data) (fst m) Map.empty)
       (\<lambda>game_mapping. return_ok (game_mapping, player_mapping))))"

subsection \<open>Stat lines of one unit (\<open>transform_and_load\<close>, after \<open>with conn\<close>)\<close>

definition get0 :: "int option \<Rightarrow> int" where
  "get0 v = (case v of None \<Rightarrow> 0 | Some n \<Rightarrow> n)"

text \<open>\<open>if local_game_id and local_player_id\<close>: both found, and neither is 0.\<close>

definition resolved_ids :: "id_map \<Rightarrow> id_map \<Rightarrow> int option \<Rightarrow> int option \<Rightarrow> (int \<times> int) option" where
  "resolved_ids gm pm api_game api_player =
     (case (gm api_game, pm api_player) of
        (Some g, Some p) \<Rightarrow> if g \<noteq> 0 \<and> p \<noteq> 0 then Some (g, p) else None
      | other \<Rightarrow> None)"

definition batter_row :: "'f float_ops \<Rightarrow> int \<Rightarrow> int \<Rightarrow> batter_json \<Rightarrow> error + 'f batter_vals" where
  "batter_row fl g p stat =
     (case derive_rates fl (get0 (bj_at_bats stat)) (get0 (bj_hits stat)) (get0 (bj_walks stat))
             (get0 (bj_hit_by_pitch stat)) (get0 (bj_sac_flies stat)) (get0 (bj_total_bases stat)) of
        Inl e \<Rightarrow> Inl e
      | Inr r \<Rightarrow>
          Inr \<lparr>b_game_id = g, b_player_id = p, b_at_bats = get0 (bj_at_bats stat),
               b_runs = get0 (bj_runs stat), b_hits = get0 (bj_hits stat),
               b_doubles = get0 (bj_doubles stat), b_triples = get0 (bj_triples stat),
               b_home_runs = get0 (bj_home_runs stat), b_rbi = get0 (bj_rbi stat),
               b_walks = get0 (bj_walks stat), b_hit_by_pitch = get0 (bj_hit_by_pitch stat),
               b_strikeouts = get0 (bj_strikeouts stat),
               b_stolen_bases = get0 (bj_stolen_bases stat),
               b_caught_stealing = get0 (bj_caught_stealing stat),
               b_avg = r_avg r, b_obp = r_obp r, b_slg = r_slg r, b_ops = r_ops r\<rparr>)"

fun batter_stats_data ::
  "'f float_ops \<Rightarrow> id_map \<Rightarrow> id_map \<Rightarrow> batter_json list \<Rightarrow> error + 'f batter_vals list" where
  "batter_stats_data fl gm pm [] = Inr []"
| "batter_stats_data fl gm pm (stat # ss) =
     (case resolved_ids gm pm (bj_game_id stat) (bj_player_id stat) of
        None \<Rightarrow> batter_stats_data fl gm pm ss
      | Some ids \<Rightarrow>
          (case batter_row fl (fst ids) (snd ids) stat of
             Inl e \<Rightarrow> Inl e
           | Inr row \<Rightarrow>
               (case batter_stats_data fl gm pm ss of
                  Inl e \<Rightarrow> Inl e
                | Inr rs \<Rightarrow> Inr (row # rs))))"

definition pitcher_row :: "'f float_ops \<Rightarrow> int \<Rightarrow> int \<Rightarrow> 'f pitcher_json \<Rightarrow> 'f pitcher_vals" where
  "pitcher_row fl g p stat =
     \<lparr>p_game_id = g, p_player_id = p,
      p_innings_pitched = (case sj_innings_pitched stat of None \<Rightarrow> fzero fl | Some x \<Rightarrow> x),
      p_hits_allowed = get0 (sj_hits_allowed stat), p_runs_allowed = get0 (sj_runs_allowed stat),
      p_earned_runs = get0 (sj_earned_runs stat),
      p_home_runs_allowed = get0 (sj_home_runs_allowed stat),
      p_walks_allowed = get0 (sj_walks_allowed stat), p_strikeouts = get0 (sj_strikeouts stat)\<rparr>"

fun pitcher_stats_data ::
  "'f float_ops \<Rightarrow> id_map \<Rightarrow> id_map \<Rightarrow> 'f pitcher_json list \<Rightarrow> 'f pitcher_vals list" where
  "pitcher_stats_data fl gm pm [] = []"
| "pitcher_stats_data fl gm pm (stat # ss) =
     (case resolved_ids gm pm (sj_game_id stat) (sj_player_id stat) of
        None \<Rightarrow> pitcher_stats_data fl gm pm ss
      | Some ids \<Rightarrow> pitcher_row fl (fst ids) (snd ids) stat # pitcher_stats_data fl gm pm ss)"

definition load_batter_stats :: "'f float_ops \<Rightarrow> id_map \<Rightarrow> id_map \<Rightarrow> batter_json list \<Rightarrow> (unit, 'f) action" where
  "load_batter_stats fl gm pm stats =
     (if stats = [] then return_ok ()
      else (case batter_stats_data fl gm pm stats of
              Inl e \<Rightarrow> raise e
            | Inr rs \<Rightarrow> bulk_insert_stats (Batter_rows rs)))"

definition load_pitcher_stats ::
  "'f float_ops \<Rightarrow> id_map \<Rightarrow> id_map \<Rightarrow> 'f pitcher_json list \<Rightarrow> (unit, 'f) action" where
  "load_pitcher_stats fl gm pm stats =
     (if stats = [] then return_ok ()
      else bulk_insert_stats (Pitcher_rows (pitcher_stats_data fl gm pm stats)))"

subsection \<open>\<open>transform_and_load\<close>\<close>

text \<open>The \<open>try\<close> block of \<open>transform_and_load\<close>.\<close>

definition load_unit :: "'f float_ops \<Rightarrow> 'f snapshot \<Rightarrow> (unit, 'f) action" where
  "load_unit fl data =
     bind (with_conn (resolve_reference_data data))
       (\<lambda>m. bind (load_batter_stats fl (fst m) (snd m) (batter_stats_j data))
       (\<lambda>u. bind (load_pitcher_stats fl (fst m) (snd m) (pitcher_stats_j data))
       (\<lambda>u w. (log_event Transformed_and_loaded w, Inr ()))))"

text \<open>
  \<open>json.load\<close> of the file, \<open>create_connection\<close>, then the \<open>try\<close> block with its
  \<open>except Exception: log, raise\<close> and \<open>finally: conn.close()\<close>.
\<close>

definition transform_and_load :: "'f float_ops \<Rightarrow> string \<Rightarrow> (unit, 'f) action" where
  "transform_and_load fl filename w =
     (case map_of (raw_dir w) filename of
        None \<Rightarrow> (w, Inl OS_Error)
      | Some Malformed \<Rightarrow> (w, Inl Value_Error)
      | Some (Document data) \<Rightarrow>
          (case create_connection w of
             (w0, Inl e) \<Rightarrow> (w0, Inl e)
           | (w0, Inr u) \<Rightarrow>
               (case load_unit fl data w0 of
                  (w1, Inl e) \<Rightarrow> (conn_close (log_event (Error_transform_and_load e) w1), Inl e)
                | (w1, Inr u) \<Rightarrow> (conn_close w1, Inr ()))))"

subsection \<open>The ledger (\<open>extract_date_range\<close>, \<open>file_overlaps_processed\<close>, \<open>record_file_processed\<close>)\<close>

definition is_date_char :: "char \<Rightarrow> bool" where   \<comment> \<open>the class \<open>[\d-]\<close>\<close>
  "is_date_char c = (c \<in> set ''0123456789-'')"

definition startswith :: "string \<Rightarrow> string \<Rightarrow> bool" where
  "startswith s pre = (take (length pre) s = pre)"

definition endswith :: "string \<Rightarrow> string \<Rightarrow> bool" where
  "endswith s suf = (length suf \<le> length s \<and> drop (length s - length suf) s = suf)"

fun contains :: "string \<Rightarrow> string \<Rightarrow> bool" where
  "contains [] sub = (sub = [])"
| "contains (c # cs) sub = (startswith (c # cs) sub \<or> contains cs sub)"

text \<open>
  \<open>re.match(r"mlb_raw_([\d-]+)_([\d-]+)_.*\.json", filename)\<close>. Neither group can hold an
  underscore, so each is the longest run of date characters and must be followed by one;
  \<open>.*\.json\<close> asks for \<open>.json\<close> somewhere in what follows, before any newline. The match is
  anchored at the start only.
\<close>

definition extract_date_range :: "string \<Rightarrow> string option \<times> string option" where
  "extract_date_range filename =
     (if startswith filename ''mlb_raw_'' then
        (let r1 = drop 8 filename;
             g1 = takeWhile is_date_char r1;
             r2 = dropWhile is_date_char r1
         in case r2 of
              [] \<Rightarrow> (None, None)
            | c2 # r3 \<Rightarrow>
                if g1 = [] \<or> c2 \<noteq> CHR ''_'' then (None, None)
                else (let g2 = takeWhile is_date_char r3;
                          r4 = dropWhile is_date_char r3
                      in case r4 of
                           [] \<Rightarrow> (None, None)
                         | c4 # r5 \<Rightarrow>
                             if g2 = [] \<or> c4 \<noteq> CHR ''_'' then (None, None)
                             else if contains (takeWhile (\<lambda>c. c \<noteq> CHR 0x0A) r5) ''.json''
                                  then (Some g1, Some g2)
                                  else (None, None)))
      else (None, None))"

text \<open>\<open>if start_date and end_date\<close>: both are strings, and neither is empty.\<close>

definition declared_range :: "string option \<times> string option \<Rightarrow> (string \<times> string) option" where
  "declared_range r =
     (case r of
        (Some s, Some e) \<Rightarrow> if s \<noteq> [] \<and> e \<noteq> [] then Some (s, e) else None
      | other \<Rightarrow> None)"

text \<open>The \<open>WHERE\<close> clause \<open>(? <= end_date) AND (? >= start_date)\<close>, on TEXT values.\<close>

definition range_overlaps :: "string \<Rightarrow> string \<Rightarrow> string \<Rightarrow> string \<Rightarrow> bool" where
  "range_overlaps new_start new_end existing_start existing_end =
     (new_start \<le> existing_end \<and> new_end \<ge> existing_start)"

definition select_overlapping :: "string \<Rightarrow> string \<Rightarrow> 'f db \<Rightarrow> processed_row option" where
  "select_overlapping new_start new_end d =
     find (\<lambda>r. range_overlaps new_start new_end (start_date r) (end_date r))
       (rows (processed_files d))"

text \<open>
  \<open>file_overlaps_processed\<close> and \<open>record_file_processed\<close> are only ever called with
  \<open>main\<close>'s connection. \<open>file_overlaps_processed\<close> never raises: a failing query is logged and
  answered \<open>False\<close>.
\<close>

definition file_overlaps_processed :: "string \<Rightarrow> string \<Rightarrow> 'f world \<Rightarrow> 'f world \<times> bool" where
  "file_overlaps_processed new_start new_end w =
     (case query Main_conn (select_overlapping new_start new_end) w of
        (w', Inr row) \<Rightarrow> (w', row \<noteq> None)
      | (w', Inl e) \<Rightarrow> (log_event Error_checking_processed_files w', False))"

text \<open>
  A plain \<open>INSERT\<close>: \<open>file_name TEXT UNIQUE\<close> makes a repeated name an \<open>IntegrityError\<close>.
  \<open>record_file_processed\<close> logs and re-raises a failure without rolling back, so the
  connection of \<open>main\<close> stays inside the transaction.
\<close>

definition insert_processed :: "string \<Rightarrow> string \<Rightarrow> string \<Rightarrow> string \<Rightarrow> 'f db \<Rightarrow> 'f db option" where
  "insert_processed filename s e stamp d =
     (let t = processed_files d in
      if list_ex (\<lambda>r. file_name r = filename) (rows t) then None
      else Some (d\<lparr>processed_files :=
             \<lparr>rows = rows t @ [\<lparr>processed_id = seq t + 1, file_name = filename, start_date = s,
                                 end_date = e, processed_at = stamp\<rparr>],
              seq = seq t + 1\<rparr>\<rparr>))"

definition record_file_processed :: "string \<Rightarrow> string \<Rightarrow> string \<Rightarrow> (unit, 'f) action" where
  "record_file_processed filename s e =
     except_sqlite
       (bind (\<lambda>w. execute Main_conn True (insert_processed filename s e (now w)) w)
          (\<lambda>u. bind (conn_commit Main_conn)
          (\<lambda>u w. (log_event (Recorded_file filename) w, Inr ()))))
       (Error_recording_file filename)"

subsection \<open>The orchestrator (\<open>main\<close>, the loop over the intake directory)\<close>

text \<open>\<open>shutil.move\<close> from the intake directory to the archive; a file of the same name there
  is replaced.\<close>

definition shutil_move :: "string \<Rightarrow> (unit, 'f) action" where
  "shutil_move filename w =
     (case next_fault w of
        (True, w') \<Rightarrow> (w', Inl OS_Error)
      | (False, w') \<Rightarrow>
          (case map_of (raw_dir w') filename of
             None \<Rightarrow> (w', Inl OS_Error)
           | Some c \<Rightarrow>
               (w'\<lparr>raw_dir := filter (\<lambda>p. fst p \<noteq> filename) (raw_dir w'),
                   historical_dir :=
                     filter (\<lambda>p. fst p \<noteq> filename) (historical_dir w') @ [(filename, c)]\<rparr>,
                Inr ())))"

text \<open>
  The \<open>try\<close> block of the loop body and its \<open>except Exception\<close>, which logs and goes on:
  load, record the range when there is one, archive.
\<close>

definition load_record_archive ::
  "'f float_ops \<Rightarrow> string \<Rightarrow> (string \<times> string) option \<Rightarrow> 'f world \<Rightarrow> 'f world" where
  "load_record_archive fl filename dates w =
     (case bind (transform_and_load fl filename)
             (\<lambda>u. bind (case dates of
                          Some r \<Rightarrow> record_file_processed filename (fst r) (snd r)
                        | None \<Rightarrow> return_ok ())
             (\<lambda>u. shutil_move filename))
             (log_event (Processing_file filename) w) of
        (w', Inr u) \<Rightarrow> log_event (Moved_file filename) w'
      | (w', Inl e) \<Rightarrow> log_event (Failed_to_process filename e) w')"

text \<open>
  The range check that opens an iteration: skip the unit when its declared range overlaps
  the ledger, load it otherwise; a name without a range is not checked.
\<close>

datatype verdict = Skip_unit | Load_unit "(string \<times> string) option"

definition range_check :: "string \<Rightarrow> 'f world \<Rightarrow> 'f world \<times> verdict" where
  "range_check filename w =
     (case declared_range (extract_date_range filename) of
        Some r \<Rightarrow>
          (case file_overlaps_processed (fst r) (snd r) w of
             (w', True) \<Rightarrow> (log_event (Overlaps_skipping (fst r) (snd r) filename) w', Skip_unit)
           | (w', False) \<Rightarrow> (w', Load_unit (Some r)))
      | None \<Rightarrow> (log_event (Filename_does_not_match filename) w, Load_unit None))"

text \<open>One iteration of \<open>for filename in os.listdir(RAW_DIR)\<close>.\<close>

definition process_file :: "'f float_ops \<Rightarrow> string \<Rightarrow> 'f world \<Rightarrow> 'f world" where
  "process_file fl filename w =
     (if endswith filename ''.json'' then
        (case range_check filename w of
           (w', Skip_unit) \<Rightarrow> w'
         | (w', Load_unit dates) \<Rightarrow> load_record_archive fl filename dates w')
      else w)"

fun main_loop :: "'f float_ops \<Rightarrow> string list \<Rightarrow> 'f world \<Rightarrow> 'f world" where
  "main_loop fl [] w = w"
| "main_loop fl (filename # fs) w = main_loop fl fs (process_file fl filename w)"

subsection \<open>Relations between the worlds before and after an operation\<close>

text \<open>
  \<open>preserves R m\<close>: the world after \<open>m\<close>, whether it returns or raises, is related by \<open>R\<close> to
  the world before. \<open>stable R\<close> and \<open>conn_ok R c\<close> collect what the primitives of connection
  \<open>c\<close> need of \<open>R\<close>, and \<open>statement_ok R c stmt\<close> what a writing statement needs.
\<close>

definition preserves :: "('f world \<Rightarrow> 'f world \<Rightarrow> bool) \<Rightarrow> ('a, 'f) action \<Rightarrow> bool" where
  "preserves R m = (\<forall>w. R w (fst (m w)))"

definition stable :: "('f world \<Rightarrow> 'f world \<Rightarrow> bool) \<Rightarrow> bool" where
  "stable R =
     ((\<forall>w. R w w) \<and> (\<forall>a b c. R a b \<longrightarrow> R b c \<longrightarrow> R a c)
      \<and> (\<forall>w l. R w (w\<lparr>logs := l\<rparr>)) \<and> (\<forall>w fs. R w (w\<lparr>faults := fs\<rparr>))
      \<and> (\<forall>w. R w (w\<lparr>txn := None\<rparr>)))"

definition conn_ok :: "('f world \<Rightarrow> 'f world \<Rightarrow> bool) \<Rightarrow> conn \<Rightarrow> bool" where
  "conn_ok R c = ((\<forall>w. R w (begin_txn c w)) \<and> (\<forall>w. R w (apply_commit c w)))"

definition statement_ok ::
  "('f world \<Rightarrow> 'f world \<Rightarrow> bool) \<Rightarrow> conn \<Rightarrow> ('f db \<Rightarrow> 'f db option) \<Rightarrow> bool" where
  "statement_ok R c stmt = (\<forall>w d. stmt (conn_view c w) = Some d \<longrightarrow> R w (store c d w))"

text \<open>The statements that \<open>transform_and_load\<close> executes.\<close>

definition loader_ok :: "('f world \<Rightarrow> 'f world \<Rightarrow> bool) \<Rightarrow> bool" where
  "loader_ok R =
     (stable R \<and> conn_ok R Loader_conn
      \<and> (\<forall>api n v c. statement_ok R Loader_conn
            (\<lambda>d. Some (d\<lparr>teams := insert_or_ignore_team api n v c (teams d)\<rparr>)))
      \<and> (\<forall>api n tid pos. statement_ok R Loader_conn
            (\<lambda>d. Some (d\<lparr>players := insert_or_ignore_player api n tid pos (players d)\<rparr>)))
      \<and> (\<forall>api dt loc h a hs as. statement_ok R Loader_conn
            (\<lambda>d. Some (d\<lparr>games := insert_or_ignore_game api dt loc h a hs as (games d)\<rparr>)))
      \<and> (\<forall>data. statement_ok R Loader_conn (executemany data)))"

text \<open>
  The frame of loading a unit: intake directory, archive, ledger and the transaction of
  \<open>main\<close>'s connection stay as they are.
\<close>

definition unit_frame :: "'f world \<Rightarrow> 'f world \<Rightarrow> bool" where
  "unit_frame w w' =
     (raw_dir w' = raw_dir w \<and> historical_dir w' = historical_dir w
      \<and> processed_files (committed w') = processed_files (committed w)
      \<and> main_txn w' = main_txn w)"

text \<open>Append-only reference data: the team, player and game rows of \<open>d\<close> open those of \<open>d'\<close>.\<close>

definition reference_rows_kept :: "'f db \<Rightarrow> 'f db \<Rightarrow> bool" where
  "reference_rows_kept d d' =
     (prefix (rows (teams d)) (rows (teams d'))
      \<and> prefix (rows (players d)) (rows (players d'))
      \<and> prefix (rows (games d)) (rows (games d')))"

definition txn_extends :: "'f world \<Rightarrow> bool" where
  "txn_extends w =
     (case txn w of None \<Rightarrow> True | Some d \<Rightarrow> reference_rows_kept (committed w) d)"

definition append_only :: "'f world \<Rightarrow> 'f world \<Rightarrow> bool" where
  "append_only w w' =
     (txn_extends w \<longrightarrow> txn_extends w' \<and> reference_rows_kept (committed w) (committed w'))"

subsection \<open>Sample inputs\<close>

text \<open>
  An exact arithmetic on thousandths, used where a concrete \<open>float_ops\<close> is needed: \<open>500\<close>
  reads \<open>0.5\<close>. It is not Python's float arithmetic: division rounds the exact quotient to
  the nearest thousandth, half to even, so \<open>round3\<close> has nothing left to do. Python rounds
  the nearest double instead: the two agree on \<open>1/16\<close> (\<open>0.062\<close>) and on every quotient that
  is not halfway between two thousandths, and can differ on a tie that no double
  represents, as \<open>1/80\<close>. Like Python's division it gives no result when the quotient
  rounds to a double of magnitude \<open>2 ^ 1024\<close> or more.
\<close>

definition round_half_even :: "int \<Rightarrow> int \<Rightarrow> int" where
  "round_half_even n d =
     (let q = n div d; r = n mod d
      in if 2 * r < d then q else if d < 2 * r then q + 1 else if even q then q else q + 1)"

definition thousandths :: "int float_ops" where
  "thousandths =
     \<lparr>fzero = 0,
      truediv = (\<lambda>a b. if (2 ^ 1024 - 2 ^ 970) * \<bar>b\<bar> \<le> \<bar>a\<bar> then None
                        else Some (round_half_even (1000 * a * sgn b) \<bar>b\<bar>)),
      fadd = (+), round3 = id\<rparr>"

definition fresh_world :: "int world" where
  "fresh_world = \<lparr>committed = empty_db, txn = None, main_txn = None, faults = [], logs = [],
     raw_dir = [], historical_dir = [], now = ''2024-04-11T09:00:00''\<rparr>"

text \<open>Two teams, one player each, one game between them, one batting and one pitching line.\<close>

definition sample_unit :: "int snapshot" where
  "sample_unit =
     \<lparr>teams_j =
        [\<lparr>tj_id = Some 147, tj_name = Some ''Yankees'', tj_venue_name = Some ''Yankee Stadium'',
          tj_location_name = Some ''Bronx''\<rparr>,
         \<lparr>tj_id = Some 111, tj_name = Some ''Red Sox'', tj_venue_name = Some ''Fenway Park'',
          tj_location_name = Some ''Boston''\<rparr>],
      rosters_j =
        [(''Yankees'', [\<lparr>pj_id = Some 592450, pj_full_name = Some ''Aaron Judge'',
                         pj_abbreviation = Some ''RF''\<rparr>]),
         (''111'', [\<lparr>pj_id = Some 646240, pj_full_name = Some ''Rafael Devers'',
                     pj_abbreviation = None\<rparr>])],
      games_j =
        [\<lparr>gj_game_id = Some 745001, gj_game_date = Some ''2024-04-05'',
          gj_location = Some ''Fenway Park'', gj_home_team_id = Some 111,
          gj_away_team_id = Some 147, gj_home_team_score = Some 3, gj_away_team_score = Some 5\<rparr>],
      batter_stats_j =
        [\<lparr>bj_game_id = Some 745001, bj_player_id = Some 592450, bj_at_bats = Some 4,
          bj_runs = Some 1, bj_hits = Some 2, bj_doubles = None, bj_triples = None,
          bj_home_runs = Some 1, bj_rbi = Some 2, bj_walks = Some 1, bj_hit_by_pitch = None,
          bj_strikeouts = Some 1, bj_stolen_bases = None, bj_caught_stealing = None,
          bj_sac_flies = None, bj_total_bases = Some 3\<rparr>],
      pitcher_stats_j =
        [\<lparr>sj_game_id = Some 745001, sj_player_id = Some 646240, sj_innings_pitched = Some 1000,
          sj_hits_allowed = Some 1, sj_runs_allowed = None, sj_earned_runs = None,
          sj_home_runs_allowed = None, sj_walks_allowed = None, sj_strikeouts = Some 2\<rparr>]\<rparr>"

definition week_one :: processed_row where
  "week_one = \<lparr>processed_id = 1, file_name = ''mlb_raw_2024-04-01_2024-04-07_20240408.json'',
     start_date = ''2024-04-01'', end_date = ''2024-04-07'',
     processed_at = ''2024-04-08T09:00:00''\<rparr>"

definition overlapping_name :: string where
  "overlapping_name = ''mlb_raw_2024-04-05_2024-04-10_20240411.json''"

text \<open>
  The ledger holds the first week of April; the intake directory holds one snapshot, under
  the given name; \<open>fs\<close> schedules the storage failures.
\<close>

definition intake_world :: "string \<Rightarrow> bool list \<Rightarrow> int world" where
  "intake_world name fs =
     \<lparr>committed = empty_db\<lparr>processed_files := \<lparr>rows = [week_one], seq = 1\<rparr>\<rparr>,
      txn = None, main_txn = None, faults = fs, logs = [],
      raw_dir = [(name, Document sample_unit)],
      historical_dir = [], now = ''2024-04-11T09:00:00''\<rparr>"

definition known_teams :: team_map_api where
  "known_teams = [Some 147 \<mapsto> 1, Some 111 \<mapsto> 2]"

definition stray_game :: game_json where
  "stray_game = \<lparr>gj_game_id = Some 745002, gj_game_date = Some ''2024-04-06'',
     gj_location = None, gj_home_team_id = Some 999, gj_away_team_id = Some 147,
     gj_home_team_score = None, gj_away_team_score = None\<rparr>"

text \<open>Two snapshots in the intake directory, the first with a range after the recorded one.\<close>

definition next_week_name :: string where
  "next_week_name = ''mlb_raw_2024-04-08_2024-04-14_20240415.json''"

definition two_unit_world :: "bool list \<Rightarrow> int world" where
  "two_unit_world fs =
     \<lparr>committed = empty_db\<lparr>processed_files := \<lparr>rows = [week_one], seq = 1\<rparr>\<rparr>,
      txn = None, main_txn = None, faults = fs, logs = [],
      raw_dir = [(next_week_name, Document sample_unit),
                 (''april_week_one.json'', Document sample_unit)],
      historical_dir = [], now = ''2024-04-15T09:00:00''\<rparr>"

text \<open>
  A snapshot whose name carries its dates in reverse order, delivered again after it was
  processed and recorded, followed by the snapshot of the week after.
\<close>

definition redelivered_name :: string where
  "redelivered_name = ''mlb_raw_2024-04-14_2024-04-08_20240415.json''"

definition later_name :: string where
  "later_name = ''mlb_raw_2024-04-15_2024-04-21_20240422.json''"

definition redelivery_world :: "int world" where
  "redelivery_world =
     \<lparr>committed = empty_db\<lparr>processed_files :=
        \<lparr>rows = [\<lparr>processed_id = 1, file_name = redelivered_name, start_date = ''2024-04-14'',
                   end_date = ''2024-04-08'', processed_at = ''2024-04-15T09:00:00''\<rparr>],
         seq = 1\<rparr>\<rparr>,
      txn = None, main_txn = None, faults = [], logs = [],
      raw_dir = [(redelivered_name, Document sample_unit), (later_name, Document sample_unit)],
      historical_dir = [], now = ''2024-04-22T09:00:00''\<rparr>"

text \<open>A database that already knows one team and one of its players.\<close>

definition judge_row :: player_row where
  "judge_row = \<lparr>player_id = 1, api_player_id = Some 592450, player_name = ''Aaron Judge'',
     player_team_id = 1, player_position = ''RF''\<rparr>"

definition season_world :: "int world" where
  "season_world =
     \<lparr>committed = empty_db
        \<lparr>teams := \<lparr>rows = [\<lparr>team_id = 1, api_team_id = Some 147, team_name = ''Yankees'',
                              team_venue = Some ''Yankee Stadium'', team_city = Some ''Bronx''\<rparr>],
                    seq = 1\<rparr>,
         players := \<lparr>rows = [judge_row], seq = 1\<rparr>\<rparr>,
      txn = None, main_txn = None, faults = [], logs = [],
      raw_dir = [(''april_week_one.json'', Document sample_unit)],
      historical_dir = [], now = ''2024-04-15T09:00:00''\<rparr>"

section \<open>Properties\<close>

subsection \<open>Derived batting rates\<close>

text \<open>
  C2 (as amended). For a batting line whose denominators AB and AB+BB+HBP+SF are not
  negative and whose quotients fit a float, the deriver returns (no division error)
  average = round3(H/AB), on-base percentage = round3((H+BB+HBP)/(AB+BB+HBP+SF)),
  slugging = round3(TB/AB), each 0.0 when its denominator is 0, and
  OPS = round3(on-base percentage + slugging). On a line with AB = BB = HBP = SF = 0 all
  four are 0.0, given that rounding 0.0 + 0.0 gives 0.0. The statement holds for every
  interpretation of the float primitives.
\<close>

theorem derive_rates_formulas:
  assumes "0 \<le> at_bats" and "0 \<le> at_bats + walks + hit_by_pitch + sac_flies"
    and "at_bats = 0
         \<or> truediv fl hits at_bats = Some avg_q \<and> truediv fl total_bases at_bats = Some slg_q"
    and "at_bats + walks + hit_by_pitch + sac_flies = 0
         \<or> truediv fl (hits + walks + hit_by_pitch) (at_bats + walks + hit_by_pitch + sac_flies)
             = Some obp_q"
  shows "\<exists>r. derive_rates fl at_bats hits walks hit_by_pitch sac_flies total_bases = Inr r
     \<and> r_avg r = (if at_bats = 0 then fzero fl else round3 fl avg_q)
     \<and> r_obp r = (if at_bats + walks + hit_by_pitch + sac_flies = 0 then fzero fl
                  else round3 fl obp_q)
     \<and> r_slg r = (if at_bats = 0 then fzero fl else round3 fl slg_q)
     \<and> r_ops r = round3 fl (fadd fl (r_obp r) (r_slg r))
     \<and> (at_bats = 0 \<and> walks = 0 \<and> hit_by_pitch = 0 \<and> sac_flies = 0
          \<and> round3 fl (fadd fl (fzero fl) (fzero fl)) = fzero fl
        \<longrightarrow> r = \<lparr>r_avg = fzero fl, r_obp = fzero fl, r_slg = fzero fl, r_ops = fzero fl\<rparr>)"
  using assms
  by (auto simp: derive_rates_def rounded_ratio_def py_truediv_def Let_def)

theorem derive_rates_formulas_witness:
  "derive_rates thousandths 0 0 0 0 0 0 = Inr \<lparr>r_avg = 0, r_obp = 0, r_slg = 0, r_ops = 0\<rparr>
   \<and> truediv thousandths 2 4 = Some 500 \<and> truediv thousandths 3 4 = Some 750
   \<and> truediv thousandths 3 5 = Some 600
   \<and> derive_rates thousandths 4 2 1 0 0 3
       = Inr \<lparr>r_avg = 500, r_obp = 600, r_slg = 750, r_ops = 1350\<rparr>"
proof -
  have a: "truediv thousandths 2 4 = Some 500" by code_simp
  have s: "truediv thousandths 3 4 = Some 750" by code_simp
  have ob: "truediv thousandths 3 5 = Some 600" by code_simp
  have z: "round3 thousandths (fadd thousandths (fzero thousandths) (fzero thousandths))
      = fzero thousandths" by (simp add: thousandths_def)
  have f: "fzero thousandths = 0" "round3 thousandths = id" "fadd thousandths = (+)"
    by (simp_all add: thousandths_def)
  from derive_rates_formulas [of 0 0 0 0 thousandths 0 0 0 0 0] z f
  have 1: "derive_rates thousandths 0 0 0 0 0 0 = Inr \<lparr>r_avg = 0, r_obp = 0, r_slg = 0, r_ops = 0\<rparr>"
    by auto
  from derive_rates_formulas [of 4 1 0 0 thousandths 2 500 3 750 600] a s ob f
  have 2: "derive_rates thousandths 4 2 1 0 0 3
       = Inr \<lparr>r_avg = 500, r_obp = 600, r_slg = 750, r_ops = 1350\<rparr>"
    by auto
  from 1 2 a s ob show ?thesis by simp
qed

text \<open>
  The claim as stated fails on two counts. The guards are \<open>> 0\<close>, not \<open>\<noteq> 0\<close>: with AB = -1
  and H = 1 the average is 0.0, where H/AB is -1.0, and with AB = 0 and BB = -1 the on-base
  percentage is 0.0, where the quotient is 1.0. And \<open>/\<close> raises \<open>OverflowError\<close> when the
  quotient of two ints is too large for a float, as with H = 10^400 and AB = 1.
\<close>

theorem derive_rates_counterexample:
  "derive_rates thousandths (- 1) 1 0 0 0 0 = Inr \<lparr>r_avg = 0, r_obp = 0, r_slg = 0, r_ops = 0\<rparr>
   \<and> truediv thousandths 1 (- 1) = Some (- 1000)
   \<and> derive_rates thousandths 0 0 (- 1) 0 0 0 = Inr \<lparr>r_avg = 0, r_obp = 0, r_slg = 0, r_ops = 0\<rparr>
   \<and> truediv thousandths (0 + (- 1) + 0) (0 + (- 1) + 0 + 0) = Some 1000
   \<and> derive_rates thousandths 1 (10 ^ 400) 0 0 0 0 = Inl Overflow_Error"
  by code_simp

subsection \<open>The overlap rule\<close>

text \<open>
  C5. The ledger's overlap predicate is the rule \<open>s1 \<le> e2 \<and> s2 \<le> e1\<close>, it is symmetric in
  the two ranges, and the overlap query finds a row exactly when a recorded range meets
  the rule.
\<close>

theorem overlap_rule_symmetric:
  "range_overlaps s1 e1 s2 e2 = (s1 \<le> e2 \<and> s2 \<le> e1)
   \<and> range_overlaps s1 e1 s2 e2 = range_overlaps s2 e2 s1 e1
   \<and> (select_overlapping s1 e1 d \<noteq> None) =
       list_ex (\<lambda>r. s1 \<le> end_date r \<and> start_date r \<le> e1) (rows (processed_files d))"
  by (auto simp: range_overlaps_def select_overlapping_def find_None_iff list_ex_iff)

subsection \<open>Entity resolution\<close>

text \<open>
  Without a storage failure, with the database not locked and every integer parameter in
  SQLite's range, a resolver is one insert, one commit and one lookup.
\<close>

lemmas loader_defs = execute_def begin_txn_def in_transaction_def next_fault_def locked_def
  conn_view_def view_def store_def conn_commit_def apply_commit_def query_def
  except_sqlite_def bind_def return_ok_def raise_def

lemma get_or_create_team_no_fault:
  assumes "faults w = []" and "main_txn w = None" and "sqlite_int_opt api"
  shows "get_or_create_team api name v c w =
    (w\<lparr>committed := (view w)\<lparr>teams := insert_or_ignore_team api name v c (teams (view w)),
                                  processed_files := processed_files (committed w)\<rparr>,
        txn := None\<rparr>,
     case select_team api ((view w)\<lparr>teams := insert_or_ignore_team api name v c (teams (view w))\<rparr>) of
       Some r \<Rightarrow> Inr (team_id r) | None \<Rightarrow> Inl Retrieval_Exception)"
  using assms
  by (cases "txn w") (auto simp: get_or_create_team_def loader_defs select_team_def split: option.splits)


lemma get_or_create_player_no_fault:
  assumes "faults w = []" and "main_txn w = None" and "sqlite_int_opt api" and "sqlite_int tid"
  shows "get_or_create_player api name tid pos w =
    (w\<lparr>committed := (view w)\<lparr>players := insert_or_ignore_player api name tid pos (players (view w)),
                                  processed_files := processed_files (committed w)\<rparr>,
        txn := None\<rparr>,
     case select_player api
            ((view w)\<lparr>players := insert_or_ignore_player api name tid pos (players (view w))\<rparr>) of
       Some r \<Rightarrow> Inr (player_id r) | None \<Rightarrow> Inl Retrieval_Exception)"
  using assms
  by (cases "txn w")
    (auto simp: get_or_create_player_def loader_defs select_player_def split: option.splits)

lemma get_or_create_game_no_fault:
  assumes "faults w = []" and "main_txn w = None" and "sqlite_int_opt api"
    and "sqlite_int h" and "sqlite_int a" and "sqlite_int_opt hs" and "sqlite_int_opt as"
  shows "get_or_create_game api dt loc h a hs as w =
    (w\<lparr>committed := (view w)\<lparr>games := insert_or_ignore_game api dt loc h a hs as (games (view w)),
                                  processed_files := processed_files (committed w)\<rparr>,
        txn := None\<rparr>,
     case select_game api
            ((view w)\<lparr>games := insert_or_ignore_game api dt loc h a hs as (games (view w))\<rparr>) of
       Some r \<Rightarrow> Inr (game_id r) | None \<Rightarrow> Inl Retrieval_Exception)"
  using assms
  by (cases "txn w")
    (auto simp: get_or_create_game_def loader_defs select_game_def split: option.splits)

text \<open>Facts about a keyed list: at most one row under a key, then exactly one after the insert.\<close>

lemma find_keyed_append:
  "find P (xs @ [x]) = (case find P xs of Some y \<Rightarrow> Some y | None \<Rightarrow> if P x then Some x else None)"
  by (induction xs) auto

lemma keyed_count_one: "list_ex P xs \<Longrightarrow> length (filter P xs) \<le> 1 \<Longrightarrow> length (filter P xs) = 1"
  by (induction xs) auto

lemma keyed_count_zero: "\<not> list_ex P xs \<Longrightarrow> length (filter P xs) = 0"
  by (induction xs) auto

lemma find_of_list_ex: "list_ex P xs \<Longrightarrow> \<exists>y. find P xs = Some y"
  by (induction xs) auto

lemma find_none_of_not_ex: "\<not> list_ex P xs \<Longrightarrow> find P xs = None"
  by (induction xs) auto


lemma insert_team_twice:
  assumes "length (filter (\<lambda>r. api_team_id r = Some e) (rows t)) \<le> 1"
  shows "\<exists>r. find (\<lambda>r. api_team_id r = Some e)
               (rows (insert_or_ignore_team (Some e) (Some n) v c t)) = Some r
     \<and> rows (insert_or_ignore_team (Some e) n' v' c' (insert_or_ignore_team (Some e) (Some n) v c t))
         = rows (insert_or_ignore_team (Some e) (Some n) v c t)
     \<and> length (filter (\<lambda>r. api_team_id r = Some e)
                 (rows (insert_or_ignore_team (Some e) (Some n) v c t))) = 1"
proof (cases "list_ex (\<lambda>r. api_team_id r = Some e) (rows t)")
  case True
  with keyed_count_one [OF True assms] find_of_list_ex [OF True] show ?thesis
    by (auto simp: insert_or_ignore_team_def split: option.splits)
next
  case False
  with keyed_count_zero [OF False] find_none_of_not_ex [OF False] show ?thesis
    by (auto simp: insert_or_ignore_team_def find_keyed_append split: option.splits)
qed

lemma insert_player_twice:
  assumes "length (filter (\<lambda>r. api_player_id r = Some e) (rows t)) \<le> 1"
  shows "\<exists>r. find (\<lambda>r. api_player_id r = Some e)
               (rows (insert_or_ignore_player (Some e) (Some n) tid pos t)) = Some r
     \<and> rows (insert_or_ignore_player (Some e) n' tid' pos'
               (insert_or_ignore_player (Some e) (Some n) tid pos t))
         = rows (insert_or_ignore_player (Some e) (Some n) tid pos t)
     \<and> length (filter (\<lambda>r. api_player_id r = Some e)
                 (rows (insert_or_ignore_player (Some e) (Some n) tid pos t))) = 1"
proof (cases "list_ex (\<lambda>r. api_player_id r = Some e) (rows t)")
  case True
  with keyed_count_one [OF True assms] find_of_list_ex [OF True] show ?thesis
    by (auto simp: insert_or_ignore_player_def split: option.splits)
next
  case False
  with keyed_count_zero [OF False] find_none_of_not_ex [OF False] show ?thesis
    by (auto simp: insert_or_ignore_player_def find_keyed_append split: option.splits)
qed

lemma insert_game_twice:
  assumes "length (filter (\<lambda>r. api_game_id r = Some e) (rows t)) \<le> 1"
  shows "\<exists>r. find (\<lambda>r. api_game_id r = Some e)
               (rows (insert_or_ignore_game (Some e) dt loc h a hs as t)) = Some r
     \<and> rows (insert_or_ignore_game (Some e) dt' loc' h' a' hs' as'
               (insert_or_ignore_game (Some e) dt loc h a hs as t))
         = rows (insert_or_ignore_game (Some e) dt loc h a hs as t)
     \<and> length (filter (\<lambda>r. api_game_id r = Some e)
                 (rows (insert_or_ignore_game (Some e) dt loc h a hs as t))) = 1"
proof (cases "list_ex (\<lambda>r. api_game_id r = Some e) (rows t)")
  case True
  with keyed_count_one [OF True assms] find_of_list_ex [OF True] show ?thesis
    by (auto simp: insert_or_ignore_game_def)
next
  case False
  with keyed_count_zero [OF False] find_none_of_not_ex [OF False] show ?thesis
    by (auto simp: insert_or_ignore_game_def find_keyed_append)
qed

lemma resolve_team_twice:
  assumes "faults w = []" and "main_txn w = None" and "sqlite_int e"
    and "length (filter (\<lambda>r. api_team_id r = Some e) (rows (teams (view w)))) \<le> 1"
  shows "\<exists>i w1 w2. get_or_create_team (Some e) (Some n) v c w = (w1, Inr i)
     \<and> get_or_create_team (Some e) n' v' c' w1 = (w2, Inr i)
     \<and> length (filter (\<lambda>r. api_team_id r = Some e) (rows (teams (committed w2)))) = 1"
proof -
  let ?t1 = "insert_or_ignore_team (Some e) (Some n) v c (teams (view w))"
  let ?w1 = "w\<lparr>committed := (view w)\<lparr>teams := ?t1,
                 processed_files := processed_files (committed w)\<rparr>, txn := None\<rparr>"
  have b: "sqlite_int_opt (Some e)" using assms(3) by (simp add: sqlite_int_opt_def)
  from insert_team_twice [OF assms(4), of n v c n' v' c']
  obtain r where r: "find (\<lambda>r. api_team_id r = Some e) (rows ?t1) = Some r"
    and same: "rows (insert_or_ignore_team (Some e) n' v' c' ?t1) = rows ?t1"
    and one: "length (filter (\<lambda>r. api_team_id r = Some e) (rows ?t1)) = 1"
    by blast
  have f1: "faults ?w1 = []" "main_txn ?w1 = None" using assms(1,2) by simp_all
  have v1: "teams (view ?w1) = ?t1" by (simp add: view_def)
  have c1: "get_or_create_team (Some e) (Some n) v c w = (?w1, Inr (team_id r))"
    using r by (simp add: get_or_create_team_no_fault [OF assms(1,2) b] select_team_def)
  have c2: "\<exists>w2. get_or_create_team (Some e) n' v' c' ?w1 = (w2, Inr (team_id r))
     \<and> rows (teams (committed w2)) = rows ?t1"
    using r same by (simp add: get_or_create_team_no_fault [OF f1 b] v1 select_team_def)
  from c1 c2 one show ?thesis by auto
qed

lemma resolve_player_twice:
  assumes "faults w = []" and "main_txn w = None" and "sqlite_int e"
    and "sqlite_int tid" and "sqlite_int tid'"
    and "length (filter (\<lambda>r. api_player_id r = Some e) (rows (players (view w)))) \<le> 1"
  shows "\<exists>i w1 w2. get_or_create_player (Some e) (Some n) tid pos w = (w1, Inr i)
     \<and> get_or_create_player (Some e) n' tid' pos' w1 = (w2, Inr i)
     \<and> length (filter (\<lambda>r. api_player_id r = Some e) (rows (players (committed w2)))) = 1"
proof -
  let ?t1 = "insert_or_ignore_player (Some e) (Some n) tid pos (players (view w))"
  let ?w1 = "w\<lparr>committed := (view w)\<lparr>players := ?t1,
                 processed_files := processed_files (committed w)\<rparr>, txn := None\<rparr>"
  have b: "sqlite_int_opt (Some e)" using assms(3) by (simp add: sqlite_int_opt_def)
  from insert_player_twice [OF assms(6), of n tid pos n' tid' pos']
  obtain r where r: "find (\<lambda>r. api_player_id r = Some e) (rows ?t1) = Some r"
    and same: "rows (insert_or_ignore_player (Some e) n' tid' pos' ?t1) = rows ?t1"
    and one: "length (filter (\<lambda>r. api_player_id r = Some e) (rows ?t1)) = 1"
    by blast
  have f1: "faults ?w1 = []" "main_txn ?w1 = None" using assms(1,2) by simp_all
  have v1: "players (view ?w1) = ?t1" by (simp add: view_def)
  have c1: "get_or_create_player (Some e) (Some n) tid pos w = (?w1, Inr (player_id r))"
    using r by (simp add: get_or_create_player_no_fault [OF assms(1,2) b assms(4)] select_player_def)
  have c2: "\<exists>w2. get_or_create_player (Some e) n' tid' pos' ?w1 = (w2, Inr (player_id r))
     \<and> rows (players (committed w2)) = rows ?t1"
    using r same
    by (simp add: get_or_create_player_no_fault [OF f1 b assms(5)] v1 select_player_def)
  from c1 c2 one show ?thesis by auto
qed

lemma resolve_game_twice:
  assumes "faults w = []" and "main_txn w = None" and "sqlite_int e"
    and "sqlite_int h" and "sqlite_int a" and "sqlite_int_opt hs" and "sqlite_int_opt as"
    and "sqlite_int h'" and "sqlite_int a'" and "sqlite_int_opt hs'" and "sqlite_int_opt as'"
    and "length (filter (\<lambda>r. api_game_id r = Some e) (rows (games (view w)))) \<le> 1"
  shows "\<exists>i w1 w2. get_or_create_game (Some e) dt loc h a hs as w = (w1, Inr i)
     \<and> get_or_create_game (Some e) dt' loc' h' a' hs' as' w1 = (w2, Inr i)
     \<and> length (filter (\<lambda>r. api_game_id r = Some e) (rows (games (committed w2)))) = 1"
proof -
  let ?t1 = "insert_or_ignore_game (Some e) dt loc h a hs as (games (view w))"
  let ?w1 = "w\<lparr>committed := (view w)\<lparr>games := ?t1,
                 processed_files := processed_files (committed w)\<rparr>, txn := None\<rparr>"
  have b: "sqlite_int_opt (Some e)" using assms(3) by (simp add: sqlite_int_opt_def)
  from insert_game_twice [OF assms(12), of dt loc h a hs as dt' loc' h' a' hs' as']
  obtain r where r: "find (\<lambda>r. api_game_id r = Some e) (rows ?t1) = Some r"
    and same: "rows (insert_or_ignore_game (Some e) dt' loc' h' a' hs' as' ?t1) = rows ?t1"
    and one: "length (filter (\<lambda>r. api_game_id r = Some e) (rows ?t1)) = 1"
    by blast
  have f1: "faults ?w1 = []" "main_txn ?w1 = None" using assms(1,2) by simp_all
  have v1: "games (view ?w1) = ?t1" by (simp add: view_def)
  have c1: "get_or_create_game (Some e) dt loc h a hs as w = (?w1, Inr (game_id r))"
    using r
    by (simp add: get_or_create_game_no_fault [OF assms(1,2) b assms(4,5,6,7)] select_game_def)
  have c2: "\<exists>w2. get_or_create_game (Some e) dt' loc' h' a' hs' as' ?w1 = (w2, Inr (game_id r))
     \<and> rows (games (committed w2)) = rows ?t1"
    using r same
    by (simp add: get_or_create_game_no_fault [OF f1 b assms(8,9,10,11)] v1 select_game_def)
  from c1 c2 one show ?thesis by auto
qed

text \<open>
  C1 (as amended). For every external id \<open>e\<close>: when every integer argument fits SQLite's
  signed 64-bit INTEGER, no storage call fails (the database is not locked either), the
  first call carries a non-null name for a team or a player (a game has no such column)
  and the table satisfies its uniqueness constraint, two calls of a resolver with \<open>e\<close>, the
  second with any attribute values, return the same internal id and leave exactly one row
  keyed by \<open>e\<close>.
\<close>

theorem resolution_idempotent:
  assumes "faults w = []" and "main_txn w = None"
    and "sqlite_int e" and "sqlite_int tid" and "sqlite_int tid'"
    and "sqlite_int h" and "sqlite_int a" and "sqlite_int_opt hs" and "sqlite_int_opt as"
    and "sqlite_int h'" and "sqlite_int a'" and "sqlite_int_opt hs'" and "sqlite_int_opt as'"
    and "length (filter (\<lambda>r. api_team_id r = Some e) (rows (teams (view w)))) \<le> 1"
    and "length (filter (\<lambda>r. api_player_id r = Some e) (rows (players (view w)))) \<le> 1"
    and "length (filter (\<lambda>r. api_game_id r = Some e) (rows (games (view w)))) \<le> 1"
  shows "(\<exists>i w1 w2. get_or_create_team (Some e) (Some n) v c w = (w1, Inr i)
            \<and> get_or_create_team (Some e) n' v' c' w1 = (w2, Inr i)
            \<and> length (filter (\<lambda>r. api_team_id r = Some e) (rows (teams (committed w2)))) = 1)
     \<and> (\<exists>i w1 w2. get_or_create_player (Some e) (Some pn) tid pos w = (w1, Inr i)
            \<and> get_or_create_player (Some e) pn' tid' pos' w1 = (w2, Inr i)
            \<and> length (filter (\<lambda>r. api_player_id r = Some e) (rows (players (committed w2)))) = 1)
     \<and> (\<exists>i w1 w2. get_or_create_game (Some e) dt loc h a hs as w = (w1, Inr i)
            \<and> get_or_create_game (Some e) dt' loc' h' a' hs' as' w1 = (w2, Inr i)
            \<and> length (filter (\<lambda>r. api_game_id r = Some e) (rows (games (committed w2)))) = 1)"
proof (intro conjI)
  show "\<exists>i w1 w2. get_or_create_team (Some e) (Some n) v c w = (w1, Inr i)
            \<and> get_or_create_team (Some e) n' v' c' w1 = (w2, Inr i)
            \<and> length (filter (\<lambda>r. api_team_id r = Some e) (rows (teams (committed w2)))) = 1"
    by (rule resolve_team_twice [OF assms(1,2,3,14)])
  show "\<exists>i w1 w2. get_or_create_player (Some e) (Some pn) tid pos w = (w1, Inr i)
            \<and> get_or_create_player (Some e) pn' tid' pos' w1 = (w2, Inr i)
            \<and> length (filter (\<lambda>r. api_player_id r = Some e) (rows (players (committed w2)))) = 1"
    by (rule resolve_player_twice [OF assms(1,2,3,4,5,15)])
  show "\<exists>i w1 w2. get_or_create_game (Some e) dt loc h a hs as w = (w1, Inr i)
            \<and> get_or_create_game (Some e) dt' loc' h' a' hs' as' w1 = (w2, Inr i)
            \<and> length (filter (\<lambda>r. api_game_id r = Some e) (rows (games (committed w2)))) = 1"
    by (rule resolve_game_twice [OF assms(1,2,3,6,7,8,9,10,11,12,13,16)])
qed

theorem resolution_idempotent_witness:
  "(\<exists>i w1 w2. get_or_create_team (Some 147) (Some ''Yankees'') (Some ''Yankee Stadium'') None
                 fresh_world = (w1, Inr i)
            \<and> get_or_create_team (Some 147) None None (Some ''Bronx'') w1 = (w2, Inr i)
            \<and> length (filter (\<lambda>r. api_team_id r = Some 147) (rows (teams (committed w2)))) = 1)
     \<and> (\<exists>i w1 w2. get_or_create_player (Some 147) (Some ''Aaron Judge'') 1 ''RF''
                 fresh_world = (w1, Inr i)
            \<and> get_or_create_player (Some 147) (Some ''A. Judge'') 2 ''DH'' w1 = (w2, Inr i)
            \<and> length (filter (\<lambda>r. api_player_id r = Some 147) (rows (players (committed w2)))) = 1)
     \<and> (\<exists>i w1 w2. get_or_create_game (Some 147) None None 1 2 None None
                 fresh_world = (w1, Inr i)
            \<and> get_or_create_game (Some 147) (Some ''2024-04-05'') None 2 1 (Some 3) (Some 5) w1
                = (w2, Inr i)
            \<and> length (filter (\<lambda>r. api_game_id r = Some 147) (rows (games (committed w2)))) = 1)"
  using resolution_idempotent [where w = fresh_world and e = 147 and n = "''Yankees''"
      and v = "Some ''Yankee Stadium''" and c = None and n' = None and v' = None
      and c' = "Some ''Bronx''" and pn = "''Aaron Judge''" and tid = 1 and pos = "''RF''"
      and pn' = "Some ''A. Judge''" and tid' = 2 and pos' = "''DH''"
      and dt = None and loc = None and h = 1 and a = 2 and hs = None and as = None
      and dt' = "Some ''2024-04-05''" and loc' = None and h' = 2 and a' = 1
      and hs' = "Some 3" and as' = "Some 5"]
  by (simp add: fresh_world_def view_def empty_db_def empty_table_def sqlite_int_def
      sqlite_int_opt_def)

text \<open>
  The claim as stated fails on three counts. With a null name, \<open>INSERT OR IGNORE\<close> drops the
  row that violates \<open>NOT NULL\<close>, the lookup finds nothing and the resolver raises, leaving no
  row keyed by \<open>e\<close>; a second call with a name then returns an id the first call never
  returned. With an id or a team id outside 64 bits, binding the parameter raises
  \<open>OverflowError\<close> and nothing is stored. And when the insert fails in the storage layer,
  or finds the database locked by the open transaction of another connection, the resolver
  raises \<open>sqlite3.Error\<close> and nothing is stored.
\<close>

theorem unqualified_resolution_counterexample:
  "faults fresh_world = [] \<and> rows (teams (view fresh_world)) = []
   \<and> snd (get_or_create_team (Some 147) None None None fresh_world) = Inl Retrieval_Exception
   \<and> rows (teams (committed (fst (get_or_create_team (Some 147) None None None fresh_world)))) = []
   \<and> snd (get_or_create_team (Some 147) (Some ''Yankees'') None None
            (fst (get_or_create_team (Some 147) None None None fresh_world))) = Inr 2
   \<and> snd (get_or_create_player (Some 592450) None 1 ''RF'' fresh_world) = Inl Retrieval_Exception
   \<and> rows (players (committed (fst (get_or_create_player (Some 592450) None 1 ''RF'' fresh_world))))
       = []
   \<and> snd (get_or_create_team (Some (2 ^ 63)) (Some ''Yankees'') None None fresh_world)
       = Inl Overflow_Error
   \<and> rows (teams (committed (fst
        (get_or_create_team (Some (2 ^ 63)) (Some ''Yankees'') None None fresh_world)))) = []
   \<and> snd (get_or_create_game (Some 745001) None None 1 (2 ^ 63) None None fresh_world)
       = Inl Overflow_Error
   \<and> snd (get_or_create_player (Some 592450) (Some ''Aaron Judge'') (2 ^ 63) ''RF'' fresh_world)
       = Inl Overflow_Error
   \<and> snd (get_or_create_team (Some 147) (Some ''Yankees'') None None
            (fresh_world\<lparr>faults := [True]\<rparr>)) = Inl Sqlite_Error
   \<and> rows (teams (committed (fst (get_or_create_team (Some 147) (Some ''Yankees'') None None
            (fresh_world\<lparr>faults := [True]\<rparr>))))) = []
   \<and> main_txn fresh_world = None
   \<and> snd (get_or_create_team (Some 147) (Some ''Yankees'') None None
            (fresh_world\<lparr>main_txn := Some empty_table\<rparr>)) = Inl Sqlite_Error
   \<and> rows (teams (committed (fst (get_or_create_team (Some 147) (Some ''Yankees'') None None
            (fresh_world\<lparr>main_txn := Some empty_table\<rparr>))))) = []"
  by code_simp

subsection \<open>Atomicity of reference-data resolution\<close>

text \<open>
  C3. The resolvers commit after every insert, so \<open>with conn\<close> has nothing left to roll back:
  when the insert of the second team fails (the fifth storage call), the unit aborts and the
  first team's row is durable all the same.
\<close>

theorem resolution_not_atomic:
  "rows (teams (committed (intake_world overlapping_name [False, False, False, False, True]))) = []
   \<and> snd (transform_and_load thousandths overlapping_name
            (intake_world overlapping_name [False, False, False, False, True])) = Inl Sqlite_Error
   \<and> map api_team_id (rows (teams (committed (fst (transform_and_load thousandths overlapping_name
            (intake_world overlapping_name [False, False, False, False, True])))))) = [Some 147]
   \<and> rows (games (committed (fst (transform_and_load thousandths overlapping_name
            (intake_world overlapping_name [False, False, False, False, True]))))) = []"
  by code_simp

subsection \<open>Overlap rejection\<close>

text \<open>
  C4 (as amended). A unit whose declared range overlaps a recorded range (a row of the
  ledger as the connection of \<open>main\<close> sees it) is rejected wholesale whenever the overlap
  query itself does not fail: the iteration only logs the skip; database, open
  transactions, intake and archive directories are as before.
\<close>

theorem overlapping_unit_rejected:
  assumes "endswith filename ''.json''"
    and "declared_range (extract_date_range filename) = Some (s, e)"
    and "list_ex (\<lambda>r. range_overlaps s e (start_date r) (end_date r))
           (rows (processed_files (main_view w)))"
    and "\<not> fst (next_fault w)"
  shows "process_file fl filename w = log_event (Overlaps_skipping s e filename) (snd (next_fault w))
     \<and> committed (process_file fl filename w) = committed w
     \<and> txn (process_file fl filename w) = txn w
     \<and> main_txn (process_file fl filename w) = main_txn w
     \<and> raw_dir (process_file fl filename w) = raw_dir w
     \<and> historical_dir (process_file fl filename w) = historical_dir w"
proof -
  from assms(3) have "select_overlapping s e (main_view w) \<noteq> None"
    by (auto simp: select_overlapping_def find_None_iff list_ex_iff)
  moreover have "main_view (snd (next_fault w)) = main_view w"
    by (cases "faults w") (simp_all add: next_fault_def main_view_def split: option.splits)
  ultimately have "file_overlaps_processed s e w = (snd (next_fault w), True)"
    using assms(4)
    by (auto simp: file_overlaps_processed_def query_def conn_view_def
        split: prod.splits bool.splits)
  with assms(1,2) show ?thesis
    by (auto simp: process_file_def range_check_def log_event_def next_fault_def
        split: list.splits)
qed

theorem overlapping_unit_rejected_witness:
  "process_file thousandths overlapping_name (intake_world overlapping_name []) =
     log_event (Overlaps_skipping ''2024-04-05'' ''2024-04-10'' overlapping_name)
       (intake_world overlapping_name [])
   \<and> committed (process_file thousandths overlapping_name (intake_world overlapping_name []))
       = committed (intake_world overlapping_name [])
   \<and> raw_dir (process_file thousandths overlapping_name (intake_world overlapping_name []))
       = raw_dir (intake_world overlapping_name [])"
proof -
  have h1: "endswith overlapping_name ''.json''" by code_simp
  have h2: "declared_range (extract_date_range overlapping_name)
              = Some (''2024-04-05'', ''2024-04-10'')" by code_simp
  have h3: "list_ex (\<lambda>r. range_overlaps ''2024-04-05'' ''2024-04-10'' (start_date r) (end_date r))
           (rows (processed_files (main_view (intake_world overlapping_name []))))" by code_simp
  have h4: "\<not> fst (next_fault (intake_world overlapping_name []))"
    by (simp add: next_fault_def intake_world_def)
  have n: "snd (next_fault (intake_world overlapping_name [])) = intake_world overlapping_name []"
    by (simp add: next_fault_def intake_world_def)
  from overlapping_unit_rejected [OF h1 h2 h3 h4, of thousandths] n show ?thesis
    by (simp add: log_event_def)
qed

text \<open>
  The claim as stated fails when the overlap query raises: the unit below declares
  2024-04-05 .. 2024-04-10 against a recorded 2024-04-01 .. 2024-04-07 and is loaded and
  recorded.
\<close>

theorem overlap_rejection_counterexample:
  "endswith overlapping_name ''.json''
   \<and> declared_range (extract_date_range overlapping_name) = Some (''2024-04-05'', ''2024-04-10'')
   \<and> rows (processed_files (committed (intake_world overlapping_name [True]))) = [week_one]
   \<and> range_overlaps ''2024-04-05'' ''2024-04-10'' (start_date week_one) (end_date week_one)
   \<and> map api_team_id (rows (teams (committed
         (process_file thousandths overlapping_name (intake_world overlapping_name [True])))))
       = [Some 147, Some 111]
   \<and> length (rows (batter_stats (committed
         (process_file thousandths overlapping_name (intake_world overlapping_name [True]))))) = 1
   \<and> map file_name (rows (processed_files (committed
         (process_file thousandths overlapping_name (intake_world overlapping_name [True])))))
       = [file_name week_one, overlapping_name]"
  by code_simp

text \<open>
  C10. When the query of the overlap check fails, the check logs the error and answers
  \<open>False\<close> whatever the ledger holds, and the iteration goes on to load the unit.
\<close>

theorem overlap_check_fails_open:
  assumes "faults w = True # fs"
  shows "file_overlaps_processed s e w =
           (log_event Error_checking_processed_files (w\<lparr>faults := fs\<rparr>), False)
     \<and> (endswith filename ''.json'' \<and> declared_range (extract_date_range filename) = Some (s, e)
        \<longrightarrow> process_file fl filename w =
              load_record_archive fl filename (Some (s, e))
                (log_event Error_checking_processed_files (w\<lparr>faults := fs\<rparr>)))"
  using assms
  by (auto simp: file_overlaps_processed_def query_def next_fault_def process_file_def
      range_check_def)

theorem overlap_check_fails_open_witness:
  "faults (intake_world overlapping_name [True]) = [True]
   \<and> endswith overlapping_name ''.json''
   \<and> declared_range (extract_date_range overlapping_name) = Some (''2024-04-05'', ''2024-04-10'')
   \<and> range_overlaps ''2024-04-05'' ''2024-04-10'' (start_date week_one) (end_date week_one)
   \<and> snd (file_overlaps_processed ''2024-04-05'' ''2024-04-10'' (intake_world overlapping_name [True]))
       = False
   \<and> process_file thousandths overlapping_name (intake_world overlapping_name [True]) =
       load_record_archive thousandths overlapping_name (Some (''2024-04-05'', ''2024-04-10''))
         (log_event Error_checking_processed_files (intake_world overlapping_name []))
   \<and> map (\<lambda>r. (start_date r, end_date r)) (rows (processed_files (committed
         (process_file thousandths overlapping_name (intake_world overlapping_name [True])))))
       = [(''2024-04-01'', ''2024-04-07''), (''2024-04-05'', ''2024-04-10'')]"
proof -
  have h0: "faults (intake_world overlapping_name [True]) = [True]"
    by (simp add: intake_world_def)
  have u: "(intake_world overlapping_name [True])\<lparr>faults := []\<rparr> = intake_world overlapping_name []"
    by (simp add: intake_world_def)
  have h1: "endswith overlapping_name ''.json''" by code_simp
  have h2: "declared_range (extract_date_range overlapping_name)
              = Some (''2024-04-05'', ''2024-04-10'')" by code_simp
  have h3: "range_overlaps ''2024-04-05'' ''2024-04-10'' (start_date week_one) (end_date week_one)"
    by code_simp
  have e: "map (\<lambda>r. (start_date r, end_date r)) (rows (processed_files (committed
         (process_file thousandths overlapping_name (intake_world overlapping_name [True])))))
       = [(''2024-04-01'', ''2024-04-07''), (''2024-04-05'', ''2024-04-10'')]" by code_simp
  from overlap_check_fails_open [OF h0, of "''2024-04-05''" "''2024-04-10''" overlapping_name thousandths]
    h0 h1 h2 h3 e u
  show ?thesis by simp
qed

subsection \<open>Skipped games\<close>

text \<open>
  C7. A game whose home or away team is missing from the unit's team mapping is skipped
  with a warning: nothing is written for it, and the loop goes on with the games after it.
\<close>

theorem game_skip_nonfatal:
  assumes "by_api (gj_home_team_id game) = None \<or> by_api (gj_away_team_id game) = None"
  shows "process_games (game # gs) by_api gm w =
           process_games gs by_api gm (log_event (Game_missing_team_mapping (gj_game_id game)) w)
     \<and> level_of (Game_missing_team_mapping (gj_game_id game)) = WARNING
     \<and> view (log_event (Game_missing_team_mapping (gj_game_id game)) w) = view w
     \<and> committed (log_event (Game_missing_team_mapping (gj_game_id game)) w) = committed w
     \<and> faults (log_event (Game_missing_team_mapping (gj_game_id game)) w) = faults w"
  using assms by (auto simp: log_event_def view_def split: option.splits)

theorem game_skip_nonfatal_witness:
  "known_teams (gj_home_team_id stray_game) = None
   \<and> process_games (stray_game # games_j sample_unit) known_teams Map.empty fresh_world =
       process_games (games_j sample_unit) known_teams Map.empty
         (log_event (Game_missing_team_mapping (Some 745002)) fresh_world)
   \<and> map api_game_id (rows (games (committed (fst
         (process_games (stray_game # games_j sample_unit) known_teams Map.empty fresh_world)))))
       = [Some 745001]"
proof -
  have h: "known_teams (gj_home_team_id stray_game) = None"
    by (simp add: known_teams_def stray_game_def)
  have i: "gj_game_id stray_game = Some 745002"
    by (simp add: stray_game_def)
  have e: "map api_game_id (rows (games (committed (fst
         (process_games (stray_game # games_j sample_unit) known_teams Map.empty fresh_world)))))
       = [Some 745001]"
    by code_simp
  from game_skip_nonfatal [of known_teams stray_game "games_j sample_unit" Map.empty fresh_world]
    h i e show ?thesis by simp
qed

subsection \<open>Unparseable source tokens\<close>



subsection \<open>What an operation preserves\<close>

text \<open>
  The relation lemmas follow the structure of the code: the connection primitives, the
  resolvers, the loops over teams, rosters and games, the stat loads, \<open>transform_and_load\<close>.
\<close>

lemma stable_refl: "stable R \<Longrightarrow> R w w"
  by (simp add: stable_def)

lemma stable_trans: "stable R \<Longrightarrow> R a b \<Longrightarrow> R b c \<Longrightarrow> R a c"
  unfolding stable_def by blast

lemma stable_log: "stable R \<Longrightarrow> R w (log_event ev w)"
  by (simp add: stable_def log_event_def)

lemma stable_fault: "stable R \<Longrightarrow> R w (snd (next_fault w))"
  by (cases "faults w") (simp_all add: stable_def next_fault_def)

lemma view_next_fault: "view (snd (next_fault w)) = view w"
  by (cases "faults w") (simp_all add: next_fault_def view_def split: option.splits)

lemma txn_next_fault: "txn (snd (next_fault w)) = txn w"
  by (cases "faults w") (simp_all add: next_fault_def)

lemma stable_rollback: "stable R \<Longrightarrow> R w (conn_rollback w)"
  by (simp add: stable_def conn_rollback_def)

lemma stable_close: "stable R \<Longrightarrow> R w (conn_close w)"
  by (simp add: stable_def conn_close_def)

lemma preserves_return: "stable R \<Longrightarrow> preserves R (return_ok x)"
  by (simp add: preserves_def return_ok_def stable_refl)

lemma preserves_raise: "stable R \<Longrightarrow> preserves R (raise e)"
  by (simp add: preserves_def raise_def stable_refl)

lemma preservesD: "preserves R m \<Longrightarrow> m w = (w', r) \<Longrightarrow> R w w'"
  by (auto simp: preserves_def dest: spec [of _ w])

lemma preserves_bind:
  assumes "stable R" and "preserves R m" and "\<And>x. preserves R (f x)"
  shows "preserves R (bind m f)"
  unfolding preserves_def
proof
  fix w
  obtain w' r where mw: "m w = (w', r)" by (cases "m w")
  have 1: "R w w'" using preservesD [OF assms(2) mw] .
  show "R w (fst (bind m f w))"
  proof (cases r)
    case (Inl e)
    with mw 1 show ?thesis by (simp add: bind_def)
  next
    case (Inr x)
    obtain w'' r' where fw: "f x w' = (w'', r')" by (cases "f x w'")
    from preservesD [OF assms(3) fw] 1 have "R w w''" by (rule stable_trans [OF assms(1), rotated])
    with mw Inr fw show ?thesis by (simp add: bind_def)
  qed
qed

lemma preserves_then_log:
  assumes "stable R"
  shows "preserves R (\<lambda>w. (log_event ev w, Inr x))"
  using assms by (simp add: preserves_def stable_log)

lemma preserves_except_sqlite:
  assumes "stable R" and "preserves R m"
  shows "preserves R (except_sqlite m ev)"
  unfolding preserves_def
proof
  fix w
  obtain w' r where mw: "m w = (w', r)" by (cases "m w")
  have 1: "R w w'" using preservesD [OF assms(2) mw] .
  have 2: "R w (log_event ev w')" using stable_trans [OF assms(1) 1 stable_log [OF assms(1)]] .
  from mw 1 2 show "R w (fst (except_sqlite m ev w))"
    by (auto simp: except_sqlite_def split: sum.splits error.splits)
qed

lemma conn_next_fault:
  "conn_view c (snd (next_fault w)) = conn_view c w"
  "in_transaction c (snd (next_fault w)) = in_transaction c w"
  "apply_commit c (snd (next_fault w)) = (apply_commit c w)\<lparr>faults := faults (snd (next_fault w))\<rparr>"
  by (cases "faults w"; cases c;
      simp add: next_fault_def conn_view_def view_def main_view_def in_transaction_def
        apply_commit_def split: option.splits)+

lemma next_fault_obtain:
  assumes "stable R"
  obtains b w' where "next_fault w = (b, w')" and "R w w'" and "conn_view c w' = conn_view c w"
    and "in_transaction c w' = in_transaction c w"
proof -
  have "next_fault w = (fst (next_fault w), snd (next_fault w))" by simp
  then show ?thesis
    using that stable_fault [OF assms, of w] conn_next_fault(1,2) [of c w]
    by blast
qed

lemma preserves_execute:
  assumes "stable R" and "conn_ok R c" and "statement_ok R c stmt"
  shows "preserves R (execute c bound stmt)"
  unfolding preserves_def
proof
  fix w
  have 0: "R w (begin_txn c w)" using assms(2) by (simp add: conn_ok_def)
  obtain b w' where nf: "next_fault (begin_txn c w) = (b, w')" and "R (begin_txn c w) w'"
    by (rule next_fault_obtain [OF assms(1)])
  with 0 have 1: "R w w'" by (blast intro: stable_trans [OF assms(1)])
  show "R w (fst (execute c bound stmt w))"
  proof (cases "stmt (conn_view c w')")
    case None
    with nf 1 show ?thesis by (cases b) (simp_all add: execute_def)
  next
    case (Some d)
    with assms(3) have "R w' (store c d w')" by (simp add: statement_ok_def)
    with 1 have "R w (store c d w')" by (rule stable_trans [OF assms(1)])
    with nf 1 Some show ?thesis by (cases b) (simp_all add: execute_def)
  qed
qed

lemma preserves_query:
  assumes "stable R"
  shows "preserves R (query c sel)"
  unfolding preserves_def
proof
  fix w
  obtain b w' where nf: "next_fault w = (b, w')" and 1: "R w w'"
    by (rule next_fault_obtain [OF assms])
  then show "R w (fst (query c sel w))" by (cases b) (simp_all add: query_def)
qed

lemma preserves_conn_commit:
  assumes "stable R" and "conn_ok R c"
  shows "preserves R (conn_commit c)"
  unfolding preserves_def
proof
  fix w
  obtain b w' where nf: "next_fault w = (b, w')" and 1: "R w w'"
    by (rule next_fault_obtain [OF assms(1)])
  from assms(2) have "R w' (apply_commit c w')" by (simp add: conn_ok_def)
  with 1 have "R w (apply_commit c w')" by (rule stable_trans [OF assms(1)])
  with nf 1 show "R w (fst (conn_commit c w))"
    by (cases b) (simp_all add: conn_commit_def stable_refl [OF assms(1)])
qed

lemma preserves_with_conn:
  assumes "stable R" and "conn_ok R Loader_conn" and "preserves R body"
  shows "preserves R (with_conn body)"
  unfolding preserves_def
proof
  fix w
  obtain w' r where bw: "body w = (w', r)" by (cases "body w")
  have 1: "R w w'" using preservesD [OF assms(3) bw] .
  have 2: "R w (conn_rollback w')" using stable_trans [OF assms(1) 1 stable_rollback [OF assms(1)]] .
  obtain w'' r' where cw: "conn_commit Loader_conn w' = (w'', r')"
    by (cases "conn_commit Loader_conn w'")
  have 3: "R w w''"
    using stable_trans [OF assms(1) 1 preservesD [OF preserves_conn_commit [OF assms(1,2)] cw]] .
  from bw cw 2 3 show "R w (fst (with_conn body w))"
    by (auto simp: with_conn_def split: sum.splits)
qed

lemma loader_ok_stable: "loader_ok R \<Longrightarrow> stable R"
  by (simp add: loader_ok_def)

lemma loader_ok_conn: "loader_ok R \<Longrightarrow> conn_ok R Loader_conn"
  by (simp add: loader_ok_def)

lemma preserves_get_or_create_team:
  assumes "loader_ok R"
  shows "preserves R (get_or_create_team api n v c)"
proof -
  note st = loader_ok_stable [OF assms] and co = loader_ok_conn [OF assms]
  have ok: "statement_ok R Loader_conn
      (\<lambda>d. Some (d\<lparr>teams := insert_or_ignore_team api n v c (teams d)\<rparr>))"
    using assms by (simp add: loader_ok_def)
  have "preserves R (\<lambda>w. case_option (raise Retrieval_Exception) (\<lambda>r. return_ok (team_id r)) row w)"
    for row :: "team_row option"
    by (cases row) (simp_all add: preserves_raise [OF st] preserves_return [OF st])
  then show ?thesis
    unfolding get_or_create_team_def
    by (intro preserves_except_sqlite [OF st] preserves_bind [OF st]
        preserves_execute [OF st co ok] preserves_conn_commit [OF st co] preserves_query [OF st])
qed

lemma preserves_get_or_create_player:
  assumes "loader_ok R"
  shows "preserves R (get_or_create_player api n tid pos)"
proof -
  note st = loader_ok_stable [OF assms] and co = loader_ok_conn [OF assms]
  have ok: "statement_ok R Loader_conn
      (\<lambda>d. Some (d\<lparr>players := insert_or_ignore_player api n tid pos (players d)\<rparr>))"
    using assms by (simp add: loader_ok_def)
  have "preserves R (\<lambda>w. case_option (raise Retrieval_Exception) (\<lambda>r. return_ok (player_id r)) row w)"
    for row :: "player_row option"
    by (cases row) (simp_all add: preserves_raise [OF st] preserves_return [OF st])
  then show ?thesis
    unfolding get_or_create_player_def
    by (intro preserves_except_sqlite [OF st] preserves_bind [OF st]
        preserves_execute [OF st co ok] preserves_conn_commit [OF st co] preserves_query [OF st])
qed

lemma preserves_get_or_create_game:
  assumes "loader_ok R"
  shows "preserves R (get_or_create_game api dt loc h a hs as)"
proof -
  note st = loader_ok_stable [OF assms] and co = loader_ok_conn [OF assms]
  have ok: "statement_ok R Loader_conn
      (\<lambda>d. Some (d\<lparr>games := insert_or_ignore_game api dt loc h a hs as (games d)\<rparr>))"
    using assms by (simp add: loader_ok_def)
  have "preserves R (\<lambda>w. case_option (raise Retrieval_Exception) (\<lambda>r. return_ok (game_id r)) row w)"
    for row :: "game_row option"
    by (cases row) (simp_all add: preserves_raise [OF st] preserves_return [OF st])
  then show ?thesis
    unfolding get_or_create_game_def
    by (intro preserves_except_sqlite [OF st] preserves_bind [OF st]
        preserves_execute [OF st co ok] preserves_conn_commit [OF st co] preserves_query [OF st])
qed

lemma preserves_bulk_insert_stats:
  assumes "loader_ok R"
  shows "preserves R (bulk_insert_stats data)"
proof -
  note st = loader_ok_stable [OF assms] and co = loader_ok_conn [OF assms]
  have ok: "statement_ok R Loader_conn (executemany data)"
    using assms by (simp add: loader_ok_def)
  show ?thesis
    unfolding bulk_insert_stats_def
    by (intro preserves_except_sqlite [OF st] preserves_bind [OF st]
        preserves_execute [OF st co ok] preserves_conn_commit [OF st co]
        preserves_then_log [OF st])
qed

lemma process_teams_related:
  assumes "loader_ok R"
  shows "R w (fst (process_teams ts m w))"
proof (induction ts arbitrary: m w)
  case Nil
  show ?case by (simp add: stable_refl [OF loader_ok_stable [OF assms]])
next
  case (Cons team ts)
  obtain w' r where g: "get_or_create_team (tj_id team) (tj_name team) (tj_venue_name team)
      (tj_location_name team) w = (w', r)"
    by (cases "get_or_create_team (tj_id team) (tj_name team) (tj_venue_name team)
      (tj_location_name team) w")
  have 1: "R w w'" by (rule preservesD [OF preserves_get_or_create_team [OF assms] g])
  show ?case
  proof (cases r)
    case (Inl e)
    with g 1 show ?thesis by simp
  next
    case (Inr i)
    with g stable_trans [OF loader_ok_stable [OF assms] 1 Cons.IH] show ?thesis by simp
  qed
qed

lemma process_roster_related:
  assumes "loader_ok R"
  shows "R w (fst (process_roster ps tid pm w))"
proof (induction ps arbitrary: pm w)
  case Nil
  show ?case by (simp add: stable_refl [OF loader_ok_stable [OF assms]])
next
  case (Cons player ps)
  obtain w' r where g: "get_or_create_player (pj_id player) (pj_full_name player) tid
      (case pj_abbreviation player of None \<Rightarrow> ''NA'' | Some a \<Rightarrow> a) w = (w', r)"
    by (cases "get_or_create_player (pj_id player) (pj_full_name player) tid
      (case pj_abbreviation player of None \<Rightarrow> ''NA'' | Some a \<Rightarrow> a) w")
  have 1: "R w w'" by (rule preservesD [OF preserves_get_or_create_player [OF assms] g])
  show ?case
  proof (cases r)
    case (Inl e)
    with g 1 show ?thesis by simp
  next
    case (Inr i)
    with g stable_trans [OF loader_ok_stable [OF assms] 1 Cons.IH] show ?thesis by simp
  qed
qed

lemma process_rosters_related:
  assumes "loader_ok R"
  shows "R w (fst (process_rosters rs by_api by_name pm w))"
proof (induction rs arbitrary: pm w)
  case Nil
  show ?case by (simp add: stable_refl [OF loader_ok_stable [OF assms]])
next
  case (Cons entry rs)
  note st = loader_ok_stable [OF assms]
  show ?case
  proof (cases "lookup_team_key by_api by_name (fst entry)")
    case (Inl e)
    then show ?thesis by (simp add: stable_refl [OF st])
  next
    case (Inr found)
    show ?thesis
    proof (cases found)
      case None
      with Inr stable_trans [OF st stable_log [OF st] Cons.IH] show ?thesis by simp
    next
      case (Some tid)
      obtain w' r where g: "process_roster (snd entry) tid pm w = (w', r)"
        by (cases "process_roster (snd entry) tid pm w")
      have 1: "R w w'" using process_roster_related [OF assms, of w "snd entry" tid pm] g by simp
      show ?thesis
      proof (cases r)
        case (Inl e)
        with Inr Some g 1 show ?thesis by simp
      next
        case (Inr pm')
        with \<open>lookup_team_key by_api by_name (fst entry) = Inr found\<close> Some g
          stable_trans [OF st 1 Cons.IH] show ?thesis by simp
      qed
    qed
  qed
qed

lemma process_games_related:
  assumes "loader_ok R"
  shows "R w (fst (process_games gs by_api gm w))"
proof (induction gs arbitrary: gm w)
  case Nil
  show ?case by (simp add: stable_refl [OF loader_ok_stable [OF assms]])
next
  case (Cons game gs)
  note st = loader_ok_stable [OF assms]
  show ?case
  proof (cases "by_api (gj_home_team_id game)")
    case None
    with stable_trans [OF st stable_log [OF st] Cons.IH] show ?thesis by simp
  next
    case (Some home)
    note home = Some
    show ?thesis
    proof (cases "by_api (gj_away_team_id game)")
      case None
      with home stable_trans [OF st stable_log [OF st] Cons.IH] show ?thesis by simp
    next
      case (Some away)
      obtain w' r where g: "get_or_create_game (gj_game_id game) (gj_game_date game)
          (gj_location game) home away (gj_home_team_score game) (gj_away_team_score game) w
          = (w', r)"
        by (cases "get_or_create_game (gj_game_id game) (gj_game_date game)
          (gj_location game) home away (gj_home_team_score game) (gj_away_team_score game) w")
      have 1: "R w w'" by (rule preservesD [OF preserves_get_or_create_game [OF assms] g])
      show ?thesis
      proof (cases r)
        case (Inl e)
        with home Some g 1 show ?thesis by simp
      next
        case (Inr i)
        with home Some g stable_trans [OF st 1 Cons.IH] show ?thesis by simp
      qed
    qed
  qed
qed

lemma preserves_resolve_reference_data:
  assumes "loader_ok R"
  shows "preserves R (resolve_reference_data data)"
proof -
  note st = loader_ok_stable [OF assms]
  have t: "preserves R (process_teams ts m)" for ts m
    by (simp add: preserves_def process_teams_related [OF assms])
  have r: "preserves R (process_rosters rs a b pm)" for rs a b pm
    by (simp add: preserves_def process_rosters_related [OF assms])
  have g: "preserves R (process_games gs a gm)" for gs a gm
    by (simp add: preserves_def process_games_related [OF assms])
  show ?thesis
    unfolding resolve_reference_data_def
    by (intro preserves_bind [OF st] t r g preserves_return [OF st])
qed

lemma preserves_load_unit:
  assumes "loader_ok R"
  shows "preserves R (load_unit fl data)"
proof -
  note st = loader_ok_stable [OF assms]
  have b: "preserves R (load_batter_stats fl gm pm stats)" for gm pm stats
    by (cases "batter_stats_data fl gm pm stats")
      (simp_all add: load_batter_stats_def preserves_return [OF st] preserves_raise [OF st]
        preserves_bulk_insert_stats [OF assms])
  have p: "preserves R (load_pitcher_stats fl gm pm stats)" for gm pm stats
    by (simp add: load_pitcher_stats_def preserves_return [OF st]
        preserves_bulk_insert_stats [OF assms])
  show ?thesis
    unfolding load_unit_def
    by (intro preserves_bind [OF st] preserves_with_conn [OF st loader_ok_conn [OF assms]]
        preserves_resolve_reference_data [OF assms] b p preserves_then_log [OF st])
qed


lemma preserves_transform_and_load:
  assumes "loader_ok R"
  shows "preserves R (transform_and_load fl filename)"
  unfolding preserves_def
proof
  fix w
  note st = loader_ok_stable [OF assms]
  show "R w (fst (transform_and_load fl filename w))"
  proof (cases "map_of (raw_dir w) filename")
    case None
    then show ?thesis by (simp add: transform_and_load_def stable_refl [OF st])
  next
    case (Some content)
    show ?thesis
    proof (cases content)
      case Malformed
      with Some show ?thesis by (simp add: transform_and_load_def stable_refl [OF st])
    next
      case (Document data)
      obtain b w' where nf: "next_fault w = (b, w')" and 1: "R w w'"
        by (rule next_fault_obtain [OF st])
      show ?thesis
      proof (cases b)
        case True
        with Some Document nf stable_trans [OF st 1 stable_log [OF st]] show ?thesis
          by (simp add: transform_and_load_def create_connection_def)
      next
        case False
        let ?w0 = "log_event Connection_established (w'\<lparr>txn := None\<rparr>)"
        from st have "R w' (w'\<lparr>txn := None\<rparr>)" by (simp add: stable_def)
        then have "R w' ?w0" by (rule stable_trans [OF st _ stable_log [OF st]])
        with 1 have 2: "R w ?w0" by (rule stable_trans [OF st])
        obtain w1 r where l: "load_unit fl data ?w0 = (w1, r)" by (cases "load_unit fl data ?w0")
        from 2 preservesD [OF preserves_load_unit [OF assms] l] have 3: "R w w1"
          by (rule stable_trans [OF st])
        have 4: "R w (conn_close w1)"
          by (rule stable_trans [OF st 3 stable_close [OF st]])
        have 5: "R w (conn_close (log_event ev w1))" for ev
          by (rule stable_trans [OF st stable_trans [OF st 3 stable_log [OF st]] stable_close [OF st]])
        from Some Document nf False l 4 5 show ?thesis
          by (cases r) (simp_all add: transform_and_load_def create_connection_def)
      qed
    qed
  qed
qed


text \<open>The two relations are instances.\<close>

lemma stable_unit_frame: "stable unit_frame"
  by (auto simp: stable_def unit_frame_def)

lemma loader_ok_unit_frame: "loader_ok unit_frame"
  by (auto simp: loader_ok_def stable_unit_frame conn_ok_def statement_ok_def unit_frame_def
      begin_txn_def apply_commit_def store_def split: option.splits)

lemma prefix_insert_team: "prefix (rows t) (rows (insert_or_ignore_team api n v c t))"
  by (simp add: insert_or_ignore_team_def split: option.splits)

lemma prefix_insert_player: "prefix (rows t) (rows (insert_or_ignore_player api n tid pos t))"
  by (simp add: insert_or_ignore_player_def split: option.splits)

lemma prefix_insert_game: "prefix (rows t) (rows (insert_or_ignore_game api dt loc h a hs as t))"
  by (simp add: insert_or_ignore_game_def)

lemma reference_rows_kept_refl: "reference_rows_kept d d"
  by (simp add: reference_rows_kept_def)

lemma reference_rows_kept_trans:
  "reference_rows_kept a b \<Longrightarrow> reference_rows_kept b c \<Longrightarrow> reference_rows_kept a c"
  by (auto simp: reference_rows_kept_def intro: prefix_order.trans)

lemma stable_append_only: "stable append_only"
  unfolding stable_def append_only_def txn_extends_def
  by (auto simp: reference_rows_kept_refl split: option.splits
      intro: reference_rows_kept_trans)

lemma conn_ok_append_only: "conn_ok append_only c"
  unfolding conn_ok_def append_only_def txn_extends_def
  by (cases c)
    (auto simp: begin_txn_def in_transaction_def apply_commit_def reference_rows_kept_def
      split: option.splits)

lemma statement_ok_append_only:
  assumes "\<And>d d'. stmt d = Some d' \<Longrightarrow> reference_rows_kept d d'"
  shows "statement_ok append_only Loader_conn stmt"
  unfolding statement_ok_def append_only_def txn_extends_def
  using assms
  by (auto simp: conn_view_def view_def store_def reference_rows_kept_refl split: option.splits
      intro: reference_rows_kept_trans)

lemma statement_ok_append_only_main: "statement_ok append_only Main_conn stmt"
  unfolding statement_ok_def append_only_def txn_extends_def
  by (auto simp: store_def reference_rows_kept_refl split: option.splits)

lemma loader_ok_append_only: "loader_ok append_only"
proof -
  have "executemany data d = Some d' \<Longrightarrow> reference_rows_kept d d'"
    for data :: "'a stat_data" and d d'
    by (cases data) (auto simp: reference_rows_kept_def)
  then show ?thesis
    by (auto simp: loader_ok_def stable_append_only conn_ok_append_only reference_rows_kept_def
        prefix_insert_team prefix_insert_player prefix_insert_game
        intro!: statement_ok_append_only)
qed

lemma next_fault_frame:
  "raw_dir (snd (next_fault w)) = raw_dir w \<and> historical_dir (snd (next_fault w)) = historical_dir w
   \<and> committed (snd (next_fault w)) = committed w \<and> txn (snd (next_fault w)) = txn w
   \<and> main_txn (snd (next_fault w)) = main_txn w"
  by (cases "faults w") (simp_all add: next_fault_def)

lemma transform_and_load_frame:
  assumes "transform_and_load fl filename w = (w1, r)"
  shows "raw_dir w1 = raw_dir w \<and> historical_dir w1 = historical_dir w
     \<and> processed_files (committed w1) = processed_files (committed w)
     \<and> main_txn w1 = main_txn w"
  using preservesD [OF preserves_transform_and_load [OF loader_ok_unit_frame] assms]
  by (simp add: unit_frame_def)

lemma file_overlaps_processed_frame:
  assumes "file_overlaps_processed s e w = (w', b)"
  shows "raw_dir w' = raw_dir w \<and> historical_dir w' = historical_dir w
     \<and> committed w' = committed w \<and> txn w' = txn w \<and> main_txn w' = main_txn w"
proof -
  obtain f w0 where nf: "next_fault w = (f, w0)" by (cases "next_fault w")
  with next_fault_frame [of w] assms show ?thesis
    by (cases f) (auto simp: file_overlaps_processed_def query_def log_event_def)
qed

lemma range_check_frame:
  assumes "range_check filename w = (w', v)"
  shows "raw_dir w' = raw_dir w \<and> historical_dir w' = historical_dir w
     \<and> committed w' = committed w \<and> txn w' = txn w \<and> main_txn w' = main_txn w"
proof (cases "declared_range (extract_date_range filename)")
  case None
  with assms show ?thesis by (auto simp: range_check_def log_event_def)
next
  case (Some r)
  obtain w0 b where f: "file_overlaps_processed (fst r) (snd r) w = (w0, b)"
    by (cases "file_overlaps_processed (fst r) (snd r) w")
  with Some assms file_overlaps_processed_frame [OF f] show ?thesis
    by (cases b) (auto simp: range_check_def log_event_def)
qed

subsection \<open>Failed units\<close>

text \<open>
  When \<open>transform_and_load\<close> raises, the exception is caught, the unit stays in the intake
  directory, archive, ledger and the connection of \<open>main\<close> are as before, and the loop goes
  on with the remaining units.
\<close>

lemma load_failure_left_in_place:
  assumes "endswith filename ''.json''"
    and "range_check filename w = (w', Load_unit dates)"
    and "transform_and_load fl filename (log_event (Processing_file filename) w') = (w1, Inl e)"
  shows "process_file fl filename w = log_event (Failed_to_process filename e) w1
     \<and> raw_dir (process_file fl filename w) = raw_dir w
     \<and> historical_dir (process_file fl filename w) = historical_dir w
     \<and> processed_files (committed (process_file fl filename w)) = processed_files (committed w)
     \<and> main_txn (process_file fl filename w) = main_txn w
     \<and> main_loop fl (filename # fs) w = main_loop fl fs (log_event (Failed_to_process filename e) w1)"
proof -
  have p: "process_file fl filename w = log_event (Failed_to_process filename e) w1"
    using assms by (simp add: process_file_def load_record_archive_def bind_def)
  from transform_and_load_frame [OF assms(3)] range_check_frame [OF assms(2)]
  have "raw_dir w1 = raw_dir w \<and> historical_dir w1 = historical_dir w
     \<and> processed_files (committed w1) = processed_files (committed w) \<and> main_txn w1 = main_txn w"
    by (simp add: log_event_def)
  with p show ?thesis by (simp add: log_event_def)
qed

text \<open>
  C6. The same does not hold when the ledger write fails. \<open>record_file_processed\<close> re-raises
  without rolling back, so the connection of \<open>main\<close> stays inside its transaction and keeps
  the write lock: the next unit, which loads and is archived when it comes alone, fails at
  its first insert with \<open>database is locked\<close> and is left in the intake directory. The first
  run below has no storage failure at all (the ledger insert violates
  \<open>file_name TEXT UNIQUE\<close>); in the second the ledger insert of the first unit is the 23rd
  storage call and fails.
\<close>

theorem failed_ledger_write_blocks_next_unit:
  "map fst (raw_dir (main_loop thousandths [redelivered_name, later_name] redelivery_world))
     = [redelivered_name, later_name]
   \<and> historical_dir (main_loop thousandths [redelivered_name, later_name] redelivery_world) = []
   \<and> filter (\<lambda>ev. level_of ev = ERROR)
       (logs (main_loop thousandths [redelivered_name, later_name] redelivery_world))
     = [Error_recording_file redelivered_name, Failed_to_process redelivered_name Sqlite_Error,
        Error_get_or_create_team (Some ''Yankees''), Error_transform_and_load Sqlite_Error,
        Failed_to_process later_name Sqlite_Error]
   \<and> map fst (historical_dir (main_loop thousandths [later_name] redelivery_world)) = [later_name]
   \<and> map fst (raw_dir (main_loop thousandths [next_week_name, ''april_week_one.json'']
        (two_unit_world (replicate 22 False @ [True]))))
     = [next_week_name, ''april_week_one.json'']
   \<and> last (logs (main_loop thousandths [next_week_name, ''april_week_one.json'']
        (two_unit_world (replicate 22 False @ [True]))))
     = Failed_to_process ''april_week_one.json'' Sqlite_Error
   \<and> map fst (historical_dir (main_loop thousandths [''april_week_one.json''] (two_unit_world [])))
     = [''april_week_one.json'']"
  by code_simp

subsection \<open>Append-only reference data\<close>

text \<open>The orchestrator's own steps under \<open>append_only\<close>.\<close>

lemma append_only_same_db:
  assumes "committed w' = committed w" and "txn w' = txn w"
  shows "append_only w w'"
  using assms
  by (simp add: append_only_def txn_extends_def reference_rows_kept_refl split: option.splits)

lemma preserves_record_file_processed:
  "preserves append_only (record_file_processed filename s e :: (unit, 'f) action)"
proof -
  note st = stable_append_only and co = conn_ok_append_only
  have ok: "statement_ok append_only Main_conn
      (insert_processed filename s e stamp :: 'f db \<Rightarrow> 'f db option)" for stamp
    by (rule statement_ok_append_only_main)
  have "append_only w (fst (execute Main_conn True (insert_processed filename s e (now w)) w))"
    for w :: "'f world"
    using preserves_execute [OF st co ok, of True "now w"] by (simp add: preserves_def)
  then have ex: "preserves append_only
      (\<lambda>w :: 'f world. execute Main_conn True (insert_processed filename s e (now w)) w)"
    by (simp add: preserves_def)
  show ?thesis
    unfolding record_file_processed_def
    by (intro preserves_except_sqlite [OF st] preserves_bind [OF st] ex
        preserves_conn_commit [OF st co] preserves_then_log [OF st])
qed

lemma preserves_shutil_move: "preserves append_only (shutil_move filename)"
  unfolding preserves_def
proof
  fix w :: "'a world"
  obtain b w' where nf: "next_fault w = (b, w')" by (cases "next_fault w")
  with next_fault_frame [of w] have "committed w' = committed w" "txn w' = txn w" by simp_all
  with nf show "append_only w (fst (shutil_move filename w))"
    by (cases b; cases "map_of (raw_dir w') filename")
      (auto simp: shutil_move_def intro!: append_only_same_db)
qed

lemma load_record_archive_append_only: "append_only w (load_record_archive fl filename dates w)"
proof -
  note st = stable_append_only
  have r: "preserves append_only
      (case dates of Some r \<Rightarrow> record_file_processed filename (fst r) (snd r)
       | None \<Rightarrow> return_ok ())"
    by (cases dates) (simp_all add: preserves_return [OF st] preserves_record_file_processed)
  have "preserves append_only
      (bind (transform_and_load fl filename)
         (\<lambda>u. bind (case dates of Some r \<Rightarrow> record_file_processed filename (fst r) (snd r)
                      | None \<Rightarrow> return_ok ())
         (\<lambda>u. shutil_move filename)))"
    by (intro preserves_bind [OF st] preserves_transform_and_load [OF loader_ok_append_only] r
        preserves_shutil_move)
  then have 1: "append_only (log_event (Processing_file filename) w)
      (fst (bind (transform_and_load fl filename)
         (\<lambda>u. bind (case dates of Some r \<Rightarrow> record_file_processed filename (fst r) (snd r)
                      | None \<Rightarrow> return_ok ())
         (\<lambda>u. shutil_move filename)) (log_event (Processing_file filename) w)))"
    by (simp add: preserves_def)
  have 2: "append_only w (log_event (Processing_file filename) w)"
    by (rule stable_log [OF st])
  have 3: "append_only w' (log_event ev w')" for w' :: "'a world" and ev
    by (rule stable_log [OF st])
  show ?thesis
    unfolding load_record_archive_def
    using stable_trans [OF st stable_trans [OF st 2 1] 3]
    by (auto split: prod.splits sum.splits)
qed

lemma process_file_append_only: "append_only w (process_file fl filename w)"
proof (cases "endswith filename ''.json''")
  case False
  then show ?thesis by (simp add: process_file_def stable_refl [OF stable_append_only])
next
  case True
  obtain w' v where rc: "range_check filename w = (w', v)" by (cases "range_check filename w")
  from range_check_frame [OF rc] have 1: "append_only w w'"
    by (intro append_only_same_db) simp_all
  show ?thesis
  proof (cases v)
    case Skip_unit
    with True rc 1 show ?thesis by (simp add: process_file_def)
  next
    case (Load_unit dates)
    with True rc stable_trans [OF stable_append_only 1 load_record_archive_append_only]
    show ?thesis by (simp add: process_file_def)
  qed
qed

lemma main_loop_append_only: "append_only w (main_loop fl fs w)"
proof (induction fs arbitrary: w)
  case Nil
  show ?case by (simp add: stable_refl [OF stable_append_only])
next
  case (Cons filename fs)
  from stable_trans [OF stable_append_only process_file_append_only Cons.IH]
  show ?case by simp
qed

lemma known_player_rows_unchanged:
  assumes "txn w = None"
    and "list_ex (\<lambda>r. api_player_id r = Some e) (rows (players (committed w)))"
  shows "rows (players (committed (fst (get_or_create_player (Some e) n tid pos w))))
     = rows (players (committed w))"
proof -
  let ?d = "(committed w)\<lparr>players := insert_or_ignore_player (Some e) n tid pos (players (committed w))\<rparr>"
  let ?w0 = "w\<lparr>txn := Some (committed w)\<rparr>"
  have d: "rows (players ?d) = rows (players (committed w))"
    using assms(2) by (simp add: insert_or_ignore_player_def split: option.splits)
  have b0: "begin_txn Loader_conn w = ?w0"
    using assms(1) by (simp add: begin_txn_def in_transaction_def)
  obtain b1 w1 where n1: "next_fault ?w0 = (b1, w1)" by (cases "next_fault ?w0")
  with next_fault_frame [of ?w0]
  have f1: "committed w1 = committed w" "txn w1 = Some (committed w)" "main_txn w1 = main_txn w"
    by simp_all
  note defs = get_or_create_player_def except_sqlite_def bind_def execute_def log_event_def
  show ?thesis
  proof (cases "b1 \<or> \<not> (sqlite_int_opt (Some e) \<and> sqlite_int tid) \<or> main_txn w \<noteq> None")
    case True
    with b0 n1 f1 show ?thesis
      by (cases b1) (auto simp: defs locked_def)
  next
    case False
    then have ok: "\<not> b1" "sqlite_int_opt (Some e) \<and> sqlite_int tid" "main_txn w = None"
      by simp_all
    obtain b2 w3 where n2: "next_fault (w1\<lparr>txn := Some ?d\<rparr>) = (b2, w3)"
      by (cases "next_fault (w1\<lparr>txn := Some ?d\<rparr>)")
    with next_fault_frame [of "w1\<lparr>txn := Some ?d\<rparr>"] f1
    have f2: "committed w3 = committed w" "txn w3 = Some ?d" by simp_all
    have ex: "execute Loader_conn (sqlite_int_opt (Some e) \<and> sqlite_int tid)
        (\<lambda>d. Some (d\<lparr>players := insert_or_ignore_player (Some e) n tid pos (players d)\<rparr>)) w
        = (w1\<lparr>txn := Some ?d\<rparr>, Inr ())"
      using b0 n1 f1 ok by (simp add: execute_def locked_def conn_view_def view_def store_def)
    show ?thesis
    proof (cases b2)
      case True
      with ex n2 f2 show ?thesis
        by (simp add: get_or_create_player_def except_sqlite_def bind_def
            conn_commit_def in_transaction_def log_event_def)
    next
      case False
      let ?w4 = "apply_commit Loader_conn w3"
      have c4: "rows (players (committed ?w4)) = rows (players (committed w))"
        using f2 d by (simp add: apply_commit_def)
      obtain b3 w5 where n3: "next_fault ?w4 = (b3, w5)" by (cases "next_fault ?w4")
      with next_fault_frame [of ?w4] have f3: "committed w5 = committed ?w4" by simp
      have cm: "conn_commit Loader_conn (w1\<lparr>txn := Some ?d\<rparr>) = (?w4, Inr ())"
        using n2 False by (simp add: conn_commit_def in_transaction_def)
      from ex cm n3 f3 c4 show ?thesis
        by (cases b3)
          (auto simp: get_or_create_player_def except_sqlite_def bind_def query_def
            log_event_def return_ok_def raise_def split: option.splits)
    qed
  qed
qed

text \<open>
  C9. Starting with no transaction open, a run of the pipeline over any list of units keeps
  every team, player and game row that was there, unchanged and in place (the old rows open
  the new tables); and resolving a known player again, with whatever name, team or
  position, leaves the rows of the player table as they are.
\<close>

theorem reference_rows_append_only:
  assumes "txn w = None"
  shows "prefix (rows (teams (committed w))) (rows (teams (committed (main_loop fl fs w))))
     \<and> prefix (rows (players (committed w))) (rows (players (committed (main_loop fl fs w))))
     \<and> prefix (rows (games (committed w))) (rows (games (committed (main_loop fl fs w))))
     \<and> (list_ex (\<lambda>r. api_player_id r = Some e) (rows (players (committed w)))
        \<longrightarrow> rows (players (committed (fst (get_or_create_player (Some e) n tid pos w))))
            = rows (players (committed w)))"
  using assms main_loop_append_only [of w fl fs] known_player_rows_unchanged [of w e n tid pos]
  by (simp add: append_only_def txn_extends_def reference_rows_kept_def)

theorem reference_rows_append_only_witness:
  "prefix (rows (teams (committed season_world)))
     (rows (teams (committed (main_loop thousandths [''april_week_one.json''] season_world))))
   \<and> prefix (rows (players (committed season_world)))
     (rows (players (committed (main_loop thousandths [''april_week_one.json''] season_world))))
   \<and> prefix (rows (games (committed season_world)))
     (rows (games (committed (main_loop thousandths [''april_week_one.json''] season_world))))
   \<and> rows (players (committed (fst
        (get_or_create_player (Some 592450) (Some ''A. Judge'') 2 ''DH'' season_world))))
       = [judge_row]
   \<and> rows (players (committed (main_loop thousandths [''april_week_one.json''] season_world)))
       = [judge_row,
          \<lparr>player_id = 3, api_player_id = Some 646240, player_name = ''Rafael Devers'',
           player_team_id = 3, player_position = ''NA''\<rparr>]"
proof -
  have h: "txn season_world = None" by (simp add: season_world_def)
  have k: "list_ex (\<lambda>r. api_player_id r = Some 592450) (rows (players (committed season_world)))"
    by code_simp
  have p: "rows (players (committed season_world)) = [judge_row]" by code_simp
  have e: "rows (players (committed (main_loop thousandths [''april_week_one.json''] season_world)))
       = [judge_row,
          \<lparr>player_id = 3, api_player_id = Some 646240, player_name = ''Rafael Devers'',
           player_team_id = 3, player_position = ''NA''\<rparr>]" by code_simp
  from reference_rows_append_only [OF h, of thousandths "[''april_week_one.json'']" 592450
      "Some ''A. Judge''" 2 "''DH''"] k p e
  show ?thesis by simp
qed

end
